theory Spec2Isabelle
  imports Complex_Main "HOL-Library.Word"
begin

section \<open>JavaScript strings\<close>

text \<open>
  A JavaScript string is a sequence of UTF-16 code units; \<open>length\<close>, \<open>substring\<close>,
  \<open>slice\<close> and the regular expressions of the plugin (none has the \<open>u\<close> flag) all count
  and match code units. A literal of the source is written \<open>js ''...''\<close>.
\<close>

type_synonym uchar = "16 word"
type_synonym ustring = "uchar list"

definition js :: "string \<Rightarrow> ustring" where
  "js s = map of_char s"

definition NL :: uchar where
  "NL = 0x0A"

definition DQ :: uchar where
  "DQ = 0x22"

text \<open>
  The class \<open>\s\<close> of a regular expression, which is also what \<open>String.prototype.trim\<close>
  strips: tab, line feed, vertical tab, form feed, carriage return, space, no-break space,
  U+1680, U+2000 to U+200A, U+2028, U+2029, U+202F, U+205F, U+3000 and U+FEFF.
\<close>

definition is_space :: "uchar \<Rightarrow> bool" where
  "is_space c \<longleftrightarrow>
     c \<in> {0x09, 0x0A, 0x0B, 0x0C, 0x0D, 0x20, 0xA0, 0x1680, 0x2028, 0x2029, 0x202F,
          0x205F, 0x3000, 0xFEFF}
     \<or> (0x2000 \<le> c \<and> c \<le> 0x200A)"

definition trim :: "ustring \<Rightarrow> ustring" where
  "trim s = rev (dropWhile is_space (rev (dropWhile is_space s)))"

text \<open>\<open>s.replace(/[class]/g, r)\<close>: every code unit of the class becomes \<open>r\<close>.\<close>

definition replace_each :: "('a \<Rightarrow> bool) \<Rightarrow> 'a list \<Rightarrow> 'a list \<Rightarrow> 'a list" where
  "replace_each p r s = concat (map (\<lambda>c. if p c then r else [c]) s)"

text \<open>
  \<open>s.replace(/[class]+/g, r)\<close>: the matcher takes the longest run of the class at the
  first position that has one, writes \<open>r\<close> for it and goes on behind the run.
\<close>

function replace_runs :: "('a \<Rightarrow> bool) \<Rightarrow> 'a list \<Rightarrow> 'a list \<Rightarrow> 'a list" where
  "replace_runs p r [] = []"
| "replace_runs p r (c # cs) =
     (if p c then r @ replace_runs p r (dropWhile p cs) else c # replace_runs p r cs)"
  by pat_completeness auto
termination
  by (relation "measure (\<lambda>(p, r, s). length s)")
     (auto simp: less_Suc_eq_le length_dropWhile_le)

text \<open>\<open>s.startsWith(pre)\<close>.\<close>

definition starts_with :: "ustring \<Rightarrow> ustring \<Rightarrow> bool" where
  "starts_with pre s \<longleftrightarrow> take (length pre) s = pre"

text \<open>
  \<open>s.split(c)\<close> for a separator of one code unit: the pieces between the separators, so
  one piece more than there are separators (\<open>''.split(c)\<close> is the one empty piece).
\<close>

definition cons_first :: "'a \<Rightarrow> 'a list list \<Rightarrow> 'a list list" where
  "cons_first c ls = (case ls of [] \<Rightarrow> [[c]] | l # ls' \<Rightarrow> (c # l) # ls')"

fun split_on :: "'a \<Rightarrow> 'a list \<Rightarrow> 'a list list" where
  "split_on x [] = [[]]"
| "split_on x (c # cs) = (if c = x then [] # split_on x cs else cons_first c (split_on x cs))"

text \<open>\<open>xs.join(sep)\<close>.\<close>

fun join :: "'a list \<Rightarrow> 'a list list \<Rightarrow> 'a list" where
  "join sep [] = []"
| "join sep [x] = x"
| "join sep (x # y # ys) = x @ sep @ join sep (y # ys)"

text \<open>
  \<open>s.split(/\r?\n/)\<close>: a separator is a line feed, together with the carriage return
  before it when there is one.
\<close>

definition CR :: uchar where
  "CR = 0x0D"

fun split_lines :: "ustring \<Rightarrow> ustring list" where
  "split_lines [] = [[]]"
| "split_lines [c] = (if c = NL then [[], []] else [[c]])"
| "split_lines (c # d # cs) =
     (if c = CR \<and> d = NL then [] # split_lines cs
      else if c = NL then [] # split_lines (d # cs)
      else cons_first c (split_lines (d # cs)))"

section \<open>File names\<close>

text \<open>
  \<open>sanitizeFileName(name)\<close> is \<open>name.replace(F, '-').replace(/\s+/g, ' ')\<close>, where the
  class \<open>F\<close> holds the slash, the backslash, the colon, the star, the question mark, the
  double quote, the two angle brackets and the bar.
\<close>

definition is_forbidden :: "uchar \<Rightarrow> bool" where
  "is_forbidden c \<longleftrightarrow> c \<in> set (js ''/:*?<>|'') \<or> c = 0x5C \<or> c = DQ"

definition sanitizeFileName :: "ustring \<Rightarrow> ustring" where
  "sanitizeFileName name = replace_runs is_space (js '' '') (replace_each is_forbidden (js ''-'') name)"


section \<open>JSON values and the platform\<close>

text \<open>
  What \<open>JSON.parse\<close> returns. A number is the value of a double that is not NaN; the
  negative zero is \<open>Finite 0\<close>, which it equals under \<open>===\<close>, in a \<open>Set\<close>, in a
  condition and under \<open>String\<close>. An object is the list of its properties.
\<close>

datatype number = Finite rat | PosInfinity | NegInfinity

datatype json =
    JNull
  | JBool bool
  | JNumber number
  | JString ustring
  | JArray "json list"
  | JObject "(ustring \<times> json) list"

text \<open>
  The built-ins of the language the code calls and this development does not define:
  \<open>JSON.parse\<close> (\<open>None\<close> where it throws a SyntaxError), \<open>JSON.stringify\<close>, the
  conversion of a number to a string, and \<open>String.prototype.toLowerCase\<close>.
\<close>

record platform =
  json_parse :: "ustring \<Rightarrow> json option"
  json_stringify :: "json \<Rightarrow> ustring"
  number_to_string :: "number \<Rightarrow> ustring"
  to_lower_case :: "ustring \<Rightarrow> ustring"

text \<open>The value of a condition: \<open>if (v)\<close>, \<open>!v\<close>, \<open>v || w\<close>.\<close>

fun truthy :: "json \<Rightarrow> bool" where
  "truthy JNull = False"
| "truthy (JBool b) = b"
| "truthy (JNumber n) = (n \<noteq> Finite 0)"
| "truthy (JString s) = (s \<noteq> [])"
| "truthy (JArray xs) = True"
| "truthy (JObject kvs) = True"

datatype error =
    TransportError
  | SyntaxError
  | TypeError
  | ApiError int ustring
  | BookIdRequired
  | ChatArgsRequired
  | BookNotFound ustring
  | ChatApiError int ustring
  | EmptyStreamResponse
  | NoResponseReader
  | StreamReadError
  | EmptyChatResponse
  | ChatFailed error
  | FolderAlreadyExists ustring
  | FileAlreadyExists ustring
  | NotAFolder ustring

text \<open>
  The results of a list of steps that may throw, or the first error among them.
\<close>

fun collect :: "('e + 'a) list \<Rightarrow> 'e + 'a list" where
  "collect [] = Inr []"
| "collect (x # xs) =
     (case x of
        Inl e \<Rightarrow> Inl e
      | Inr v \<Rightarrow> (case collect xs of Inl e \<Rightarrow> Inl e | Inr vs \<Rightarrow> Inr (v # vs)))"

text \<open>
  The string a value becomes when it is appended to a string with \<open>+=\<close> or stands in a
  template literal. An array is its elements joined by commas, with nothing for a \<open>null\<close>
  element. An object that \<open>JSON.parse\<close> made is \<open>[object Object]\<close>, through the method
  \<open>toString\<close> it inherits; when it has a property \<open>toString\<close> of its own, which is no
  function, the conversion finds no method to call and throws a TypeError (a property
  \<open>valueOf\<close> of its own is passed over the same way, and the inherited one gives back the
  object). The elements of an array are converted in order, so the first that throws
  decides.
\<close>

fun to_string :: "platform \<Rightarrow> json \<Rightarrow> error + ustring" where
  "to_string P JNull = Inr (js ''null'')"
| "to_string P (JBool b) = Inr (if b then js ''true'' else js ''false'')"
| "to_string P (JNumber n) = Inr (number_to_string P n)"
| "to_string P (JString s) = Inr s"
| "to_string P (JArray xs) =
     (case collect (map (\<lambda>x. if x = JNull then Inr [] else to_string P x) xs) of
        Inl e \<Rightarrow> Inl e
      | Inr ss \<Rightarrow> Inr (join (js '','') ss))"
| "to_string P (JObject kvs) =
     (if map_of kvs (js ''toString'') = None then Inr (js ''[object Object]'')
      else Inl TypeError)"

text \<open>
  Reading a property of a parsed value, \<open>v.name\<close>: a TypeError on \<open>null\<close>, the property
  of an object, and \<open>undefined\<close> (\<open>None\<close>) otherwise. None of the names the client reads
  (\<open>content\<close>, \<open>answer\<close>, \<open>delta\<close>, \<open>cited_chapters\<close>, \<open>detail\<close>, \<open>id\<close>) is a property
  of a string, a number, a boolean or an array.
\<close>

fun get_prop :: "json \<Rightarrow> ustring \<Rightarrow> error + json option" where
  "get_prop JNull name = Inl TypeError"
| "get_prop (JObject kvs) name = Inr (map_of kvs name)"
| "get_prop v name = Inr None"

definition truthy_opt :: "json option \<Rightarrow> bool" where
  "truthy_opt v = (case v of None \<Rightarrow> False | Some x \<Rightarrow> truthy x)"

section \<open>The HTTP executor and what a call leaves behind\<close>

record http_request =
  q_url :: ustring
  q_method :: ustring
  q_headers :: "(ustring \<times> ustring) list"
  q_body :: "ustring option"

record http_response =
  r_status :: int
  r_text :: ustring

text \<open>
  The \<open>requestUrl\<close> function the client is built with: it answers with a response,
  whatever the status, or rejects.
\<close>

type_synonym executor = "http_request \<Rightarrow> error + http_response"

text \<open>
  \<open>fetch\<close>, which the revision \<open>src/BookriseClient.ts\<close> streams with. A response has
  its \<open>ok\<close> flag, its status, the text of its body, and the reads of its body's reader
  (\<open>None\<close> when the response has no body): each read gives the text the \<open>TextDecoder\<close>
  makes of its bytes, or fails; the stream is done where the list ends.
\<close>

datatype read_event = Chunk ustring | ReadFails

record fetch_response =
  f_ok :: bool
  f_status :: int
  f_text :: ustring
  f_body :: "read_event list option"

type_synonym fetcher = "http_request \<Rightarrow> error + fetch_response"

text \<open>
  What a call does besides returning, in the order it happens: a request handed to the
  executor or to \<open>fetch\<close>, a call of \<open>console.warn\<close> or \<open>console.error\<close>, a call of the
  caller's \<open>onChunk\<close> with the value passed. (\<open>console.log\<close> is left out.)
\<close>

datatype event =
    Sent http_request
  | Fetched http_request
  | WarnEmptyResponse int ustring
  | ErrorApi int json
  | WarnParseFailed error
  | ErrorChat error
  | OnChunk json

type_synonym 'a io = "(error + 'a) \<times> event list"

definition chunks_of :: "event list \<Rightarrow> json list" where
  "chunks_of evs = concat (map (\<lambda>e. case e of OnChunk c \<Rightarrow> [c] | _ \<Rightarrow> []) evs)"

definition requests_of :: "event list \<Rightarrow> http_request list" where
  "requests_of evs =
     concat (map (\<lambda>e. case e of Sent r \<Rightarrow> [r] | Fetched r \<Rightarrow> [r] | _ \<Rightarrow> []) evs)"

section \<open>The response normalizer: \<open>BookriseClient.request\<close>\<close>

text \<open>
  An object spread \<open>{...a, ...b}\<close>: a key of \<open>b\<close> that \<open>a\<close> has takes its place there,
  a new one goes to the end.
\<close>

fun set_key :: "'k \<Rightarrow> 'v \<Rightarrow> ('k \<times> 'v) list \<Rightarrow> ('k \<times> 'v) list" where
  "set_key k v [] = [(k, v)]"
| "set_key k v (p # ps) = (if fst p = k then (k, v) # ps else p # set_key k v ps)"

definition spread :: "('k \<times> 'v) list \<Rightarrow> ('k \<times> 'v) list \<Rightarrow> ('k \<times> 'v) list" where
  "spread a b = foldl (\<lambda>acc kv. set_key (fst kv) (snd kv) acc) a b"

record request_options =
  o_method :: "ustring option"
  o_headers :: "(ustring \<times> ustring) list"
  o_body :: "ustring option"

definition baseUrl :: ustring where
  "baseUrl = js ''https://app.bookrise.io''"

definition requestOptions :: "ustring \<Rightarrow> ustring \<Rightarrow> request_options \<Rightarrow> http_request" where
  "requestOptions token endpoint options =
     \<lparr> q_url = baseUrl @ endpoint,
       q_method = (case o_method options of
                   None \<Rightarrow> js ''GET''
                 | Some m \<Rightarrow> if m = [] then js ''GET'' else m),
       q_headers = spread
         [(js ''Authorization'', js ''Bearer '' @ token),
          (js ''Content-Type'', js ''application/json'')]
         (o_headers options),
       q_body = o_body options \<rparr>"

text \<open>
  The error branch (lines 68 to 79): the message carries \<open>parsedError.detail\<close> when the
  body parses and has a truthy \<open>detail\<close>, and the body's text otherwise (also when the
  parse, or the read of \<open>detail\<close> on \<open>null\<close>, throws: the \<open>catch\<close> is empty).
\<close>

definition errorBody :: "platform \<Rightarrow> ustring \<Rightarrow> json" where
  "errorBody P t =
     (case json_parse P t of
        None \<Rightarrow> JString t
      | Some parsedError \<Rightarrow>
          (case get_prop parsedError (js ''detail'') of
             Inl e \<Rightarrow> JString t
           | Inr d \<Rightarrow> (case d of
                        None \<Rightarrow> JString t
                      | Some v \<Rightarrow> if truthy v then v else JString t)))"

text \<open>
  Lines 68 to 90 of \<open>request\<close>: what it makes of the executor's response. On a status
  outside 200 to 299 it logs the status and the error body, then builds the message of
  the error it throws with the body in a template literal: where the body (a \<open>detail\<close>
  that is an object) has no string, that is a TypeError in place of the error.
\<close>

definition handle_response :: "platform \<Rightarrow> ustring \<Rightarrow> http_response \<Rightarrow> json io" where
  "handle_response P u response =
     (if r_status response < 200 \<or> r_status response \<ge> 300 then
        (case to_string P (errorBody P (r_text response)) of
           Inl e \<Rightarrow> Inl e
         | Inr message \<Rightarrow> Inl (ApiError (r_status response) message),
         [ErrorApi (r_status response) (errorBody P (r_text response))])
      else if r_text response = [] \<and> r_status response \<noteq> 204 then
        (Inr JNull, [WarnEmptyResponse (r_status response) u])
      else if r_status response = 204 then
        (Inr JNull, [])
      else (case json_parse P (r_text response) of
              None \<Rightarrow> (Inl SyntaxError, [])
            | Some v \<Rightarrow> (Inr v, [])))"

definition request ::
  "platform \<Rightarrow> executor \<Rightarrow> ustring \<Rightarrow> ustring \<Rightarrow> request_options \<Rightarrow> json io" where
  "request P requestUrlFn token endpoint options =
     (let req = requestOptions token endpoint options in
      case requestUrlFn req of
        Inl e \<Rightarrow> (Inl e, [Sent req])
      | Inr response \<Rightarrow>
          (case handle_response P (q_url req) response of
             (r, evs) \<Rightarrow> (r, Sent req # evs)))"

definition no_options :: request_options where
  "no_options = \<lparr> o_method = None, o_headers = [], o_body = None \<rparr>"

definition listBooks :: "platform \<Rightarrow> executor \<Rightarrow> ustring \<Rightarrow> json io" where
  "listBooks P requestUrlFn token = request P requestUrlFn token (js ''/api/books'') no_options"

definition listHighlights :: "platform \<Rightarrow> executor \<Rightarrow> ustring \<Rightarrow> ustring \<Rightarrow> json io" where
  "listHighlights P requestUrlFn token bookId =
     (if bookId = [] then (Inl BookIdRequired, [])
      else request P requestUrlFn token (js ''/api/highlights?book_id='' @ bookId) no_options)"


section \<open>The chat call\<close>

record ChatResponse =
  answer :: ustring
  cited_paragraph_ids :: "ustring list"
  cited_chapters :: "json list"

text \<open>
  \<open>chat\<close> returns the record it builds from the stream, or, without \<open>onChunk\<close>, the
  parsed body of the response as it is.
\<close>

datatype chat_result = Streamed ChatResponse | Parsed json

text \<open>\<open>books.find(b => b.id === bookId)\<close> on the elements of an array.\<close>

fun find_book :: "json list \<Rightarrow> ustring \<Rightarrow> error + json option" where
  "find_book [] bookId = Inr None"
| "find_book (b # bs) bookId =
     (case get_prop b (js ''id'') of
        Inl e \<Rightarrow> Inl e
      | Inr v \<Rightarrow> if v = Some (JString bookId) then Inr (Some b) else find_book bs bookId)"

text \<open>
  \<open>books.find\<close> on what \<open>listBooks\<close> returned: a value that is not an array has no
  method \<open>find\<close> (reading it on \<open>null\<close>, or calling it elsewhere, is a TypeError).
\<close>

definition find_in_books :: "json \<Rightarrow> ustring \<Rightarrow> error + json option" where
  "find_in_books books bookId =
     (case books of JArray bs \<Rightarrow> find_book bs bookId | _ \<Rightarrow> Inl TypeError)"

definition chat_body :: "ustring \<Rightarrow> ustring \<Rightarrow> ustring list option \<Rightarrow> json" where
  "chat_body bookId prompt contextIds =
     JObject
       [(js ''book_id'', JString bookId),
        (js ''message'', JString prompt),
        (js ''context_ids'',
           JArray (map JString (case contextIds of None \<Rightarrow> [] | Some ids \<Rightarrow> ids)))]"

definition stream_request :: "platform \<Rightarrow> ustring \<Rightarrow> json \<Rightarrow> http_request" where
  "stream_request P token b =
     \<lparr> q_url = baseUrl @ js ''/chat'',
       q_method = js ''POST'',
       q_headers =
         [(js ''Authorization'', js ''Bearer '' @ token),
          (js ''Content-Type'', js ''application/json''),
          (js ''Accept'', js ''text/event-stream'')],
       q_body = Some (json_stringify P b) \<rparr>"

subsection \<open>Decoding one line of the stream\<close>

record stream_state =
  fullAnswer :: ustring
  citedChapters :: "json list"
  log :: "event list"

text \<open>
  The chain \<open>if (parsed.content) ... else if (parsed.answer) ... else if (parsed.delta)
  ... else if (typeof parsed === 'string') ...\<close>, the same in both revisions: the value
  the branch taken emits, \<open>None\<close> when no branch is taken, and the TypeError of reading a
  property of \<open>null\<close>.
\<close>

definition select_chunk :: "json \<Rightarrow> error + json option" where
  "select_chunk parsed =
     (case get_prop parsed (js ''content'') of
        Inl e \<Rightarrow> Inl e
      | Inr content \<Rightarrow>
          if truthy_opt content then Inr content
          else (case get_prop parsed (js ''answer'') of
                  Inl e \<Rightarrow> Inl e
                | Inr ans \<Rightarrow>
                    if truthy_opt ans then Inr ans
                    else (case get_prop parsed (js ''delta'') of
                            Inl e \<Rightarrow> Inl e
                          | Inr delta \<Rightarrow>
                              if truthy_opt delta then Inr delta
                              else (case parsed of
                                      JString s \<Rightarrow> Inr (Some parsed)
                                    | _ \<Rightarrow> Inr None))))"

text \<open>
  \<open>fullAnswer += chunk; onChunk(chunk)\<close>. The value of a field is any value
  \<open>JSON.parse\<close> makes. Where it has no string the \<open>+=\<close> throws, before the answer has
  changed and before the callback is called. The callback is the caller's: its call is
  recorded, and it is taken to return.
\<close>

definition append_chunk :: "stream_state \<Rightarrow> json \<Rightarrow> ustring \<Rightarrow> stream_state" where
  "append_chunk st chunk s =
     st\<lparr> fullAnswer := fullAnswer st @ s, log := log st @ [OnChunk chunk] \<rparr>"

definition deliver :: "platform \<Rightarrow> stream_state \<Rightarrow> json \<Rightarrow> error + stream_state" where
  "deliver P st chunk =
     (case to_string P chunk of
        Inl e \<Rightarrow> Inl e
      | Inr s \<Rightarrow> Inr (append_chunk st chunk s))"

definition warn :: "stream_state \<Rightarrow> error \<Rightarrow> stream_state" where
  "warn st e = st\<lparr> log := log st @ [WarnParseFailed e] \<rparr>"

subsubsection \<open>The revision that streams through \<open>requestUrl\<close> (\<open>unnamed/part_001\<close>)\<close>

text \<open>\<open>emitChunk\<close>: \<open>if (!chunk) return; fullAnswer += chunk; onChunk(chunk)\<close>.\<close>

definition emitChunk :: "platform \<Rightarrow> stream_state \<Rightarrow> json \<Rightarrow> error + stream_state" where
  "emitChunk P st chunk = (if \<not> truthy chunk then Inr st else deliver P st chunk)"

text \<open>
  \<open>emitChunk(data)\<close> as the \<open>catch\<close> calls it, on the payload's text: a string is its
  own string, so nothing is thrown there (lemma \<open>emitChunk_on_text\<close>).
\<close>

definition emitChunk_text :: "stream_state \<Rightarrow> ustring \<Rightarrow> stream_state" where
  "emitChunk_text st data = (if data = [] then st else append_chunk st (JString data) data)"

text \<open>\<open>citedChapters.add(chapter)\<close> for every element that is a number, into a \<open>Set\<close>.\<close>

definition add_chapters :: "json list \<Rightarrow> json list \<Rightarrow> json list" where
  "add_chapters acc xs =
     foldl (\<lambda>acc ch. case ch of
                        JNumber n \<Rightarrow> if JNumber n \<in> set acc then acc else acc @ [JNumber n]
                      | _ \<Rightarrow> acc) acc xs"

definition note_chapters :: "stream_state \<Rightarrow> json option \<Rightarrow> stream_state" where
  "note_chapters st cc =
     (case cc of
        Some (JArray xs) \<Rightarrow> st\<lparr> citedChapters := add_chapters (citedChapters st) xs \<rparr>
      | _ \<Rightarrow> st)"

text \<open>
  The body of the loop over the lines, lines 376 to 413. A line counts when, trimmed, it
  starts with \<open>data:\<close>; its payload is what follows, trimmed.
\<close>

definition stream_payload :: "ustring \<Rightarrow> ustring option" where
  "stream_payload rawLine =
     (let line = trim rawLine in
      if \<not> starts_with (js ''data:'') line then None else Some (trim (drop 5 line)))"

text \<open>
  The \<open>try\<close> block and its \<open>catch\<close>: every exception of the block (of \<open>JSON.parse\<close>,
  of reading a field of \<open>null\<close>, of appending a value that has no string) ends in the
  \<open>catch\<close>, which warns and emits the payload's text.
\<close>

definition stream_data :: "platform \<Rightarrow> stream_state \<Rightarrow> ustring \<Rightarrow> stream_state" where
  "stream_data P st data =
     (case json_parse P data of
        None \<Rightarrow> emitChunk_text (warn st SyntaxError) data
      | Some parsed \<Rightarrow>
          (case select_chunk parsed of
             Inl e \<Rightarrow> emitChunk_text (warn st e) data
           | Inr sel \<Rightarrow>
               (case (case sel of None \<Rightarrow> Inr st | Some c \<Rightarrow> emitChunk P st c) of
                  Inl e \<Rightarrow> emitChunk_text (warn st e) data
                | Inr st1 \<Rightarrow>
                    (case get_prop parsed (js ''cited_chapters'') of
                       Inl e \<Rightarrow> emitChunk_text (warn st1 e) data
                     | Inr cc \<Rightarrow> note_chapters st1 cc))))"

definition stream_line :: "platform \<Rightarrow> stream_state \<Rightarrow> ustring \<Rightarrow> stream_state" where
  "stream_line P st rawLine =
     (case stream_payload rawLine of
        None \<Rightarrow> st
      | Some data \<Rightarrow>
          if data = [] \<or> data = js ''[DONE]'' then st else stream_data P st data)"

definition chat_stream :: "platform \<Rightarrow> executor \<Rightarrow> ustring \<Rightarrow> json \<Rightarrow> ChatResponse io" where
  "chat_stream P requestUrlFn token b =
     (let req = stream_request P token b in
      case requestUrlFn req of
        Inl e \<Rightarrow> (Inl e, [Sent req])
      | Inr response \<Rightarrow>
          if r_status response < 200 \<or> r_status response \<ge> 300 then
            (Inl (ChatApiError (r_status response) (r_text response)), [Sent req])
          else if r_text response = [] then (Inl EmptyStreamResponse, [Sent req])
          else
            let st = foldl (stream_line P)
                       \<lparr> fullAnswer = [], citedChapters = [], log = [Sent req] \<rparr>
                       (split_lines (r_text response))
            in (Inr \<lparr> answer = fullAnswer st, cited_paragraph_ids = [],
                      cited_chapters = citedChapters st \<rparr>,
                log st))"

text \<open>The fallback without \<open>onChunk\<close>, the same in both revisions.\<close>

definition chat_plain :: "platform \<Rightarrow> executor \<Rightarrow> ustring \<Rightarrow> json \<Rightarrow> json io" where
  "chat_plain P requestUrlFn token b =
     (case request P requestUrlFn token (js ''/chat'')
             \<lparr> o_method = Some (js ''POST''), o_headers = [],
               o_body = Some (json_stringify P b) \<rparr> of
        (Inl e, evs) \<Rightarrow> (Inl e, evs)
      | (Inr response, evs) \<Rightarrow>
          if \<not> truthy response then (Inl EmptyChatResponse, evs) else (Inr response, evs))"

text \<open>
  What the \<open>try\<close> block of \<open>chat\<close> makes of its body: a failure is logged and thrown
  again, wrapped.
\<close>

definition wrap_failure :: "event list \<Rightarrow> chat_result io \<Rightarrow> chat_result io" where
  "wrap_failure evs0 r =
     (case r of
        (Inl e, evs) \<Rightarrow> (Inl (ChatFailed e), evs0 @ evs @ [ErrorChat e])
      | (Inr v, evs) \<Rightarrow> (Inr v, evs0 @ evs))"

definition as_streamed :: "ChatResponse io \<Rightarrow> chat_result io" where
  "as_streamed r = (case r of (Inl e, evs) \<Rightarrow> (Inl e, evs) | (Inr v, evs) \<Rightarrow> (Inr (Streamed v), evs))"

definition as_parsed :: "json io \<Rightarrow> chat_result io" where
  "as_parsed r = (case r of (Inl e, evs) \<Rightarrow> (Inl e, evs) | (Inr v, evs) \<Rightarrow> (Inr (Parsed v), evs))"

text \<open>
  \<open>chat(bookId, prompt, contextIds, onChunk)\<close> of \<open>unnamed/part_001\<close>; \<open>onChunk\<close> says
  whether the caller gave the callback.
\<close>

definition chat_requestUrl ::
  "platform \<Rightarrow> executor \<Rightarrow> ustring \<Rightarrow> ustring \<Rightarrow> ustring \<Rightarrow> ustring list option \<Rightarrow> bool
     \<Rightarrow> chat_result io" where
  "chat_requestUrl P requestUrlFn token bookId prompt contextIds onChunk =
     (if bookId = [] \<or> prompt = [] then (Inl ChatArgsRequired, [])
      else (case listBooks P requestUrlFn token of
              (Inl e, evs) \<Rightarrow> (Inl e, evs)
            | (Inr books, evs) \<Rightarrow>
                (case find_in_books books bookId of
                   Inl e \<Rightarrow> (Inl e, evs)
                 | Inr None \<Rightarrow> (Inl (BookNotFound bookId), evs)
                 | Inr (Some book) \<Rightarrow>
                     wrap_failure evs
                       (if onChunk then
                          as_streamed
                            (chat_stream P requestUrlFn token (chat_body bookId prompt contextIds))
                        else
                          as_parsed
                            (chat_plain P requestUrlFn token (chat_body bookId prompt contextIds))))))"

subsubsection \<open>The revision that streams through \<open>fetch\<close> (\<open>src/BookriseClient.ts\<close>)\<close>

text \<open>
  \<open>Array.from(new Set(citedChapters))\<close>: the first of the elements that are the same value.
  Two primitives are the same value when they are equal; an array or an object that
  \<open>JSON.parse\<close> made is the same as no other.
\<close>

definition same_value :: "json \<Rightarrow> json \<Rightarrow> bool" where
  "same_value a b \<longleftrightarrow>
     a = b \<and> (case a of JArray xs \<Rightarrow> False | JObject kvs \<Rightarrow> False | _ \<Rightarrow> True)"

definition from_set :: "json list \<Rightarrow> json list" where
  "from_set xs = foldl (\<lambda>acc x. if list_ex (same_value x) acc then acc else acc @ [x]) [] xs"

definition concat_chapters :: "stream_state \<Rightarrow> json option \<Rightarrow> stream_state" where
  "concat_chapters st cc =
     (case cc of
        Some (JArray xs) \<Rightarrow> st\<lparr> citedChapters := citedChapters st @ xs \<rparr>
      | _ \<Rightarrow> st)"

text \<open>
  The body of the loop over the lines of one read, lines 171 to 206. A line counts when
  it starts with \<open>data:\<close> and a space; its payload is what follows, untrimmed.
\<close>

definition fetch_payload :: "ustring \<Rightarrow> ustring option" where
  "fetch_payload line =
     (if \<not> starts_with (js ''data: '') line then None else Some (drop 6 line))"

text \<open>
  The \<open>try\<close> block and its \<open>catch\<close>, which only warns: a payload that does not parse,
  or whose field cannot be appended, emits nothing.
\<close>

definition fetch_data :: "platform \<Rightarrow> stream_state \<Rightarrow> ustring \<Rightarrow> stream_state" where
  "fetch_data P st data =
     (case json_parse P data of
        None \<Rightarrow> warn st SyntaxError
      | Some parsed \<Rightarrow>
          (case select_chunk parsed of
             Inl e \<Rightarrow> warn st e
           | Inr sel \<Rightarrow>
               (case (case sel of None \<Rightarrow> Inr st | Some c \<Rightarrow> deliver P st c) of
                  Inl e \<Rightarrow> warn st e
                | Inr st1 \<Rightarrow>
                    (case get_prop parsed (js ''cited_chapters'') of
                       Inl e \<Rightarrow> warn st1 e
                     | Inr cc \<Rightarrow> concat_chapters st1 cc))))"

definition fetch_line :: "platform \<Rightarrow> stream_state \<Rightarrow> ustring \<Rightarrow> stream_state" where
  "fetch_line P st line =
     (case fetch_payload line of
        None \<Rightarrow> st
      | Some data \<Rightarrow> if data = js ''[DONE]'' then st else fetch_data P st data)"

text \<open>
  The \<open>while (true)\<close> loop over the reads, lines 160 to 213: it stops at the end of the
  stream; a read that fails throws out of the loop.
\<close>

fun read_loop :: "platform \<Rightarrow> stream_state \<Rightarrow> read_event list \<Rightarrow> ChatResponse io" where
  "read_loop P st [] =
     (Inr \<lparr> answer = fullAnswer st, cited_paragraph_ids = [],
            cited_chapters = from_set (citedChapters st) \<rparr>,
      log st)"
| "read_loop P st (ReadFails # rest) = (Inl StreamReadError, log st)"
| "read_loop P st (Chunk c # rest) =
     read_loop P (foldl (fetch_line P) st (split_on NL c)) rest"

definition chat_fetch_stream :: "platform \<Rightarrow> fetcher \<Rightarrow> ustring \<Rightarrow> json \<Rightarrow> ChatResponse io" where
  "chat_fetch_stream P fetch token b =
     (let req = stream_request P token b in
      case fetch req of
        Inl e \<Rightarrow> (Inl e, [Fetched req])
      | Inr response \<Rightarrow>
          if \<not> f_ok response then
            (Inl (ChatApiError (f_status response) (f_text response)), [Fetched req])
          else (case f_body response of
                  None \<Rightarrow> (Inl NoResponseReader, [Fetched req])
                | Some reads \<Rightarrow>
                    read_loop P
                      \<lparr> fullAnswer = [], citedChapters = [], log = [Fetched req] \<rparr> reads))"

definition chat_fetch ::
  "platform \<Rightarrow> executor \<Rightarrow> fetcher \<Rightarrow> ustring \<Rightarrow> ustring \<Rightarrow> ustring \<Rightarrow> ustring list option
     \<Rightarrow> bool \<Rightarrow> chat_result io" where
  "chat_fetch P requestUrlFn fetch token bookId prompt contextIds onChunk =
     (if bookId = [] \<or> prompt = [] then (Inl ChatArgsRequired, [])
      else (case listBooks P requestUrlFn token of
              (Inl e, evs) \<Rightarrow> (Inl e, evs)
            | (Inr books, evs) \<Rightarrow>
                (case find_in_books books bookId of
                   Inl e \<Rightarrow> (Inl e, evs)
                 | Inr None \<Rightarrow> (Inl (BookNotFound bookId), evs)
                 | Inr (Some book) \<Rightarrow>
                     wrap_failure evs
                       (if onChunk then
                          as_streamed
                            (chat_fetch_stream P fetch token (chat_body bookId prompt contextIds))
                        else
                          as_parsed
                            (chat_plain P requestUrlFn token (chat_body bookId prompt contextIds))))))"


section \<open>Books, highlights and settings\<close>

text \<open>The interfaces \<open>Book\<close> and \<open>Highlight\<close>; an optional field is an \<open>option\<close>.\<close>

record Book =
  b_id :: ustring
  b_title :: ustring
  b_author :: "ustring option"
  b_isbn :: "ustring option"
  b_tags :: "ustring list option"
  b_percent_read :: "number option"
  b_assistant_id :: "ustring option"

record Highlight =
  h_id :: ustring
  h_book_id :: "ustring option"
  h_user_id :: "ustring option"
  h_cfi_range :: "ustring option"
  h_text_content :: "ustring option"
  h_page :: "number option"
  h_location :: "ustring option"
  h_color :: "ustring option"
  h_note :: "ustring option"
  h_created_at :: "ustring option"
  h_updated_at :: "ustring option"

record BookrisePluginSettings =
  bookriseApiKey :: ustring
  bookriseSyncFolder :: ustring
  createNotePerHighlight :: bool

text \<open>\<open>if (x)\<close> on an optional string: there and not empty; on an optional number: there and not zero.\<close>

definition present :: "ustring option \<Rightarrow> bool" where
  "present s = (case s of None \<Rightarrow> False | Some t \<Rightarrow> t \<noteq> [])"

definition present_number :: "number option \<Rightarrow> bool" where
  "present_number n = (case n of None \<Rightarrow> False | Some x \<Rightarrow> x \<noteq> Finite 0)"

definition str :: "ustring option \<Rightarrow> ustring" where
  "str s = (case s of None \<Rightarrow> [] | Some t \<Rightarrow> t)"

definition num :: "platform \<Rightarrow> number option \<Rightarrow> ustring" where
  "num P n = (case n of None \<Rightarrow> js ''undefined'' | Some x \<Rightarrow> number_to_string P x)"

section \<open>Paths and titles\<close>

text \<open>\<open>s.replace(/\/\//g, '/')\<close>: each pair of slashes, found from the left, becomes one.\<close>

fun replace_double_slash :: "ustring \<Rightarrow> ustring" where
  "replace_double_slash (c # d # cs) =
     (if c = 0x2F \<and> d = 0x2F then 0x2F # replace_double_slash cs
      else c # replace_double_slash (d # cs))"
| "replace_double_slash cs = cs"

text \<open>\<open>s.replace(/\.md$/, '')\<close>.\<close>

definition strip_md :: "ustring \<Rightarrow> ustring" where
  "strip_md s =
     (if length s \<ge> 3 \<and> drop (length s - 3) s = js ''.md'' then take (length s - 3) s else s)"

text \<open>\<open>s.trim().split(' ')\<close>.\<close>

definition trimmed_words :: "ustring \<Rightarrow> ustring list" where
  "trimmed_words s = split_on 0x20 (trim s)"

text \<open>\<open>new Set(xs)\<close> as an array: the first of equal strings stays, in its place.\<close>

definition unique :: "'a list \<Rightarrow> 'a list" where
  "unique xs = foldl (\<lambda>acc x. if x \<in> set acc then acc else acc @ [x]) [] xs"

text \<open>The class \<open>[^a-zA-Z0-9\-_]\<close> of the author tag.\<close>

definition is_tag_char :: "uchar \<Rightarrow> bool" where
  "is_tag_char c \<longleftrightarrow>
     (0x61 \<le> c \<and> c \<le> 0x7A) \<or> (0x41 \<le> c \<and> c \<le> 0x5A) \<or> (0x30 \<le> c \<and> c \<le> 0x39)
     \<or> c = 0x2D \<or> c = 0x5F"

definition colon_to_dash :: "ustring \<Rightarrow> ustring" where
  "colon_to_dash s = replace_each (\<lambda>c. c = 0x3A) (js ''-'') s"

definition authorTag :: "ustring \<Rightarrow> ustring" where
  "authorTag author = replace_each (\<lambda>c. \<not> is_tag_char c) (js ''_'') author"

definition colorTag :: "platform \<Rightarrow> ustring \<Rightarrow> ustring" where
  "colorTag P color = js ''hlcolor/'' @ replace_runs is_space (js ''_'') (to_lower_case P color)"

definition quoted_tags :: "ustring list \<Rightarrow> ustring" where
  "quoted_tags tags = join (js '', '') (map (\<lambda>t. [DQ] @ colon_to_dash t @ [DQ]) tags)"

section \<open>What the notes hold\<close>

text \<open>\<open>generateBookFrontmatter(book)\<close>, lines 468 to 492 of \<open>unnamed/part_002\<close>.\<close>

definition generateBookFrontmatter :: "platform \<Rightarrow> Book \<Rightarrow> ustring" where
  \<open>generateBookFrontmatter P book =
     (let existingBookTags = (case b_tags book of None \<Rightarrow> [] | Some ts \<Rightarrow> ts);
          pluginAddedTags =
            [js ''BookRise'']
            @ (if present (b_author book) then [js ''author/'' @ authorTag (str (b_author book))]
               else []);
          allTags = unique (existingBookTags @ pluginAddedTags)
      in js ''---'' @ [NL]
         @ js ''title: "'' @ colon_to_dash (b_title book) @ [DQ, NL]
         @ js ''id: '' @ b_id book @ [NL]
         @ (if present (b_author book) then js ''author: "'' @ str (b_author book) @ [DQ, NL]
            else [])
         @ (if present (b_isbn book) then js ''isbn: "'' @ str (b_isbn book) @ [DQ, NL] else [])
         @ (if b_percent_read book \<noteq> None then
              js ''percent_read: '' @ num P (b_percent_read book) @ [NL]
            else [])
         @ (if length allTags > 0 then js ''tags: ['' @ quoted_tags allTags @ js '']'' @ [NL]
            else [])
         @ js ''source: BookRise'' @ [NL]
         @ js ''---'' @ [NL, NL])\<close>

text \<open>The title of a highlight's note: the first words, and three dots when there are more.\<close>

definition noteTitle :: "Highlight \<Rightarrow> ustring" where
  "noteTitle hl =
     (if present (h_text_content hl) then
        join (js '' '') (take 7 (trimmed_words (str (h_text_content hl))))
        @ (if length (trimmed_words (str (h_text_content hl))) > 7 then js ''...'' else [])
      else if present (h_note hl) then
        js ''Note: '' @ join (js '' '') (take 6 (trimmed_words (str (h_note hl))))
        @ (if length (trimmed_words (str (h_note hl))) > 6 then js ''...'' else [])
      else js ''BookRise Highlight'')"

text \<open>\<open>generateHighlightNoteFrontmatter(hl, book, bookSanitizedFileNameForLink)\<close>, lines 495 to 527.\<close>

definition generateHighlightNoteFrontmatter ::
  "platform \<Rightarrow> Highlight \<Rightarrow> Book \<Rightarrow> ustring \<Rightarrow> ustring" where
  \<open>generateHighlightNoteFrontmatter P hl book bookSanitizedFileNameForLink =
     (let tags =
            [js ''BookRise'', js ''BookRiseHighlight'']
            @ (if present (b_author book) then [js ''author/'' @ authorTag (str (b_author book))]
               else [])
            @ (if present (h_color hl) then [colorTag P (str (h_color hl))] else [])
      in js ''---'' @ [NL]
         @ js ''title: "'' @ sanitizeFileName (colon_to_dash (noteTitle hl)) @ [DQ, NL]
         @ js ''book: "[['' @ bookSanitizedFileNameForLink @ js '']]"'' @ [NL]
         @ js ''book_id: '' @ b_id book @ [NL]
         @ js ''highlight_id: '' @ h_id hl @ [NL]
         @ (if present (h_color hl) then js ''color: '' @ str (h_color hl) @ [NL] else [])
         @ (if present_number (h_page hl) then js ''page: '' @ num P (h_page hl) @ [NL] else [])
         @ (if present (h_location hl) then
              js ''location: "'' @ str (h_location hl) @ [DQ, NL]
            else [])
         @ (if present (h_created_at hl) then
              js ''highlight_created_at: '' @ str (h_created_at hl) @ [NL]
            else [])
         @ js ''tags: ['' @ quoted_tags tags @ js '']'' @ [NL]
         @ js ''---'' @ [NL, NL])\<close>

text \<open>\<open>s.replace(/\n/g, r)\<close>.\<close>

definition indent_lines :: "ustring \<Rightarrow> ustring \<Rightarrow> ustring" where
  "indent_lines r s = replace_each (\<lambda>c. c = NL) r s"

text \<open>
  \<open>formatSingleHighlightAsListItem(hl)\<close>, lines 530 to 568. \<open>random36\<close> is what
  \<open>Math.random().toString(36)\<close> gives in this call; it is read only when the id is empty.
\<close>

definition formatSingleHighlightAsListItem :: "platform \<Rightarrow> ustring \<Rightarrow> Highlight \<Rightarrow> ustring" where
  \<open>formatSingleHighlightAsListItem P random36 hl =
     (let blockId = (if h_id hl \<noteq> [] then take 8 (h_id hl) else take 8 (drop 2 random36));
          metadataParts =
            (if present_number (h_page hl) then [js ''p. '' @ num P (h_page hl)] else [])
            @ (if present (h_location hl) then [js ''loc. '' @ str (h_location hl)] else []);
          metadataString =
            (if length metadataParts > 0 then js '' ('' @ join (js '', '') metadataParts @ js '')''
             else []);
          colorTagString =
            (if present (h_color hl) then js '' #'' @ colorTag P (str (h_color hl)) else []);
          primaryLineContent =
            (if present (h_text_content hl) then
               indent_lines (NL # js ''  '') (str (h_text_content hl))
             else if present (h_note hl) then
               js ''**Note:** '' @ indent_lines (NL # js ''  '') (str (h_note hl))
             else []);
          subNoteContent =
            (if present (h_text_content hl) \<and> present (h_note hl) then
               js ''  - **Note:** '' @ indent_lines (NL # js ''    '') (str (h_note hl)) @ [NL]
             else []);
          finalPrimaryLine =
            (if length (trim primaryLineContent) = 0
                \<and> (length metadataString > 0 \<or> length colorTagString > 0)
             then js '' '' else trim primaryLineContent)
            @ metadataString @ colorTagString
      in js ''- '' @ trim finalPrimaryLine @ js '' ^'' @ blockId @ [NL]
         @ (if subNoteContent \<noteq> [] then subNoteContent else [])
         @ [NL])\<close>

text \<open>\<open>formatSingleHighlightContent(hl)\<close>, lines 571 to 584.\<close>

definition formatSingleHighlightContent :: "Highlight \<Rightarrow> ustring" where
  "formatSingleHighlightContent hl =
     (if present (h_text_content hl) then str (h_text_content hl) @ [NL, NL] else [])
     @ (if present (h_note hl) then js ''**Note:**'' @ [NL] @ str (h_note hl) @ [NL, NL] else [])
     @ (if \<not> present (h_text_content hl) \<and> \<not> present (h_note hl) then
          js ''(This highlight has no text or note content from BookRise.)'' @ [NL]
        else [])"


section \<open>The vault\<close>

text \<open>
  The file store of the host, as far as the plugin uses it: a path holds a file with its
  content, a folder, or nothing. \<open>createFolder\<close> and \<open>create\<close> fail on a path that holds
  something; \<open>modify\<close> replaces the content of a file. Beside the vault the world keeps
  what the run did, in order: the calls that changed the vault, the notices shown to the
  user and the calls of \<open>console.error\<close>.
\<close>

datatype entry = TFile ustring | TFolder

datatype store_event =
    CreateFolder ustring
  | CreateFile ustring ustring
  | ModifyFile ustring ustring
  | Notice ustring
  | LogError error

record world =
  vault :: "ustring \<Rightarrow> entry option"
  trace :: "store_event list"

type_synonym 'a sync = "(error + 'a) \<times> world"

definition and_then :: "'a sync \<Rightarrow> ('a \<Rightarrow> world \<Rightarrow> 'b sync) \<Rightarrow> 'b sync" where
  "and_then r f = (case r of (Inl e, w) \<Rightarrow> (Inl e, w) | (Inr x, w) \<Rightarrow> f x w)"

definition emit :: "store_event \<Rightarrow> world \<Rightarrow> world" where
  "emit ev w = w\<lparr> trace := trace w @ [ev] \<rparr>"

definition vault_createFolder :: "ustring \<Rightarrow> world \<Rightarrow> unit sync" where
  "vault_createFolder p w =
     (if vault w p \<noteq> None then (Inl (FolderAlreadyExists p), w)
      else (Inr (), emit (CreateFolder p) (w\<lparr> vault := (vault w)(p \<mapsto> TFolder) \<rparr>)))"

definition vault_create :: "ustring \<Rightarrow> ustring \<Rightarrow> world \<Rightarrow> unit sync" where
  "vault_create p content w =
     (if vault w p \<noteq> None then (Inl (FileAlreadyExists p), w)
      else (Inr (), emit (CreateFile p content) (w\<lparr> vault := (vault w)(p \<mapsto> TFile content) \<rparr>)))"

definition vault_modify :: "ustring \<Rightarrow> ustring \<Rightarrow> world \<Rightarrow> unit sync" where
  "vault_modify p content w =
     (Inr (), emit (ModifyFile p content) (w\<lparr> vault := (vault w)(p \<mapsto> TFile content) \<rparr>))"

text \<open>\<open>createOrUpdateFile(filePath, content)\<close>, lines 587 to 594.\<close>

definition createOrUpdateFile :: "ustring \<Rightarrow> ustring \<Rightarrow> world \<Rightarrow> unit sync" where
  "createOrUpdateFile filePath content w =
     (case vault w filePath of
        Some (TFile old) \<Rightarrow> vault_modify filePath content w
      | _ \<Rightarrow> vault_create filePath content w)"

text \<open>\<open>s.includes(sub)\<close>.\<close>

fun str_includes :: "'a list \<Rightarrow> 'a list \<Rightarrow> bool" where
  "str_includes [] sub = (sub = [])"
| "str_includes (c # cs) sub = (take (length sub) (c # cs) = sub \<or> str_includes cs sub)"

text \<open>
  \<open>ensureFolderExists(folderPath)\<close>, lines 597 to 614: the \<open>catch\<close> logs the error and
  throws it again unless its message includes \<open>Folder already exists\<close>. The error of the
  vault for an existing folder says so; the error the function throws itself says so when
  the path does.
\<close>

definition not_a_folder_message :: "ustring \<Rightarrow> ustring" where
  "not_a_folder_message folderPath = folderPath @ js '' exists but is a file, not a folder.''"

definition says_folder_exists :: "error \<Rightarrow> bool" where
  "says_folder_exists e =
     (case e of
        FolderAlreadyExists p \<Rightarrow> True
      | NotAFolder p \<Rightarrow> str_includes (not_a_folder_message p) (js ''Folder already exists'')
      | _ \<Rightarrow> False)"

definition ensureFolderExists :: "ustring \<Rightarrow> world \<Rightarrow> unit sync" where
  "ensureFolderExists folderPath w =
     (case (case vault w folderPath of
              None \<Rightarrow> vault_createFolder folderPath w
            | Some TFolder \<Rightarrow> (Inr (), w)
            | Some (TFile c) \<Rightarrow>
                (Inl (NotAFolder folderPath),
                 emit (Notice (js ''Error: '' @ not_a_folder_message folderPath)) w)) of
        (Inr u, w') \<Rightarrow> (Inr (), w')
      | (Inl e, w') \<Rightarrow>
          if says_folder_exists e then (Inr (), emit (LogError e) w')
          else (Inl e, emit (LogError e) w'))"

section \<open>The synchronizer\<close>

text \<open>
  The client as the synchronizer sees it, through its types: what \<open>listBooks()\<close>
  resolves to, and what \<open>listHighlights(bookId)\<close> resolves to once its argument is not
  empty. \<open>None\<close> is the \<open>null\<close> that \<open>request\<close> returns for an empty body.
\<close>

record remote =
  books_result :: "error + Book list option"
  highlights_result :: "ustring \<Rightarrow> error + Highlight list option"

definition client_listHighlights :: "remote \<Rightarrow> ustring \<Rightarrow> error + Highlight list option" where
  "client_listHighlights client bookId =
     (if bookId = [] then Inl BookIdRequired else highlights_result client bookId)"

definition bookFolderPath :: "BookrisePluginSettings \<Rightarrow> Book \<Rightarrow> ustring" where
  "bookFolderPath settings book =
     replace_double_slash (bookriseSyncFolder settings @ js ''/'' @ sanitizeFileName (b_title book))"

definition mainBookFilePath :: "BookrisePluginSettings \<Rightarrow> Book \<Rightarrow> ustring" where
  "mainBookFilePath settings book =
     replace_double_slash
       (bookFolderPath settings book @ js ''/'' @ sanitizeFileName (b_title book) @ js ''.md'')"

definition highlightsFolder :: "BookrisePluginSettings \<Rightarrow> Book \<Rightarrow> ustring" where
  "highlightsFolder settings book = bookFolderPath settings book @ js ''/_Highlights''"

definition mainBookHeader :: "platform \<Rightarrow> Book \<Rightarrow> ustring" where
  "mainBookHeader P book = generateBookFrontmatter P book @ js ''# '' @ b_title book @ [NL, NL]"

definition noteTitlePrefix :: "Highlight \<Rightarrow> ustring" where
  "noteTitlePrefix hl =
     sanitizeFileName
       (if present (h_text_content hl) then
          join (js '' '') (take 5 (trimmed_words (str (h_text_content hl))))
        else if present (h_note hl) then
          js ''Note - '' @ join (js '' '') (take 4 (trimmed_words (str (h_note hl))))
        else js ''Highlight'')"

definition noteFileName :: "Highlight \<Rightarrow> ustring" where
  "noteFileName hl =
     noteTitlePrefix hl @ js '' ('' @ take 8 (sanitizeFileName (h_id hl)) @ js '').md''"

definition noteFilePath :: "BookrisePluginSettings \<Rightarrow> Book \<Rightarrow> Highlight \<Rightarrow> ustring" where
  "noteFilePath settings book hl =
     replace_double_slash (highlightsFolder settings book @ js ''/'' @ noteFileName hl)"

definition noteContent :: "platform \<Rightarrow> Book \<Rightarrow> Highlight \<Rightarrow> ustring" where
  "noteContent P book hl =
     generateHighlightNoteFrontmatter P hl book (sanitizeFileName (b_title book))
     @ formatSingleHighlightContent hl"

definition highlightLink :: "Highlight \<Rightarrow> ustring" where
  "highlightLink hl =
     js ''- [[_Highlights/'' @ strip_md (noteFileName hl) @ js ''|'' @ noteTitlePrefix hl
     @ js '' ('' @ (if present (h_color hl) then str (h_color hl) else js ''highlight'')
     @ js '')]]''"

text \<open>
  The loop of the mode with one note for each highlight, lines 430 to 451: it writes the
  note and collects the link; a write that fails ends the loop and the sync of the book.
\<close>

fun write_notes ::
  "platform \<Rightarrow> BookrisePluginSettings \<Rightarrow> Book \<Rightarrow> Highlight list \<Rightarrow> ustring list \<Rightarrow> world
     \<Rightarrow> (ustring list) sync" where
  "write_notes P settings book [] highlightLinks w = (Inr highlightLinks, w)"
| "write_notes P settings book (hl # hls) highlightLinks w =
     and_then (createOrUpdateFile (noteFilePath settings book hl) (noteContent P book hl) w)
       (\<lambda>u w'. write_notes P settings book hls (highlightLinks @ [highlightLink hl]) w')"

definition index_intro :: ustring where
  \<open>index_intro =
     js ''This book's highlights are stored as individual notes in the "_Highlights" subfolder.''
     @ [NL, NL] @ js ''## Highlights Index'' @ [NL]\<close>

text \<open>
  The list items of the mode with one file for a book, lines 456 to 460; \<open>random36 i\<close>
  is what \<open>Math.random().toString(36)\<close> gives in the call for the highlight at place \<open>i\<close>.
\<close>

definition listItems :: "platform \<Rightarrow> (nat \<Rightarrow> ustring) \<Rightarrow> Highlight list \<Rightarrow> ustring" where
  "listItems P random36 highlights =
     concat (map (\<lambda>(i, hl). formatSingleHighlightAsListItem P (random36 i) hl)
                 (zip [0 ..< length highlights] highlights))"

text \<open>\<open>syncBookHighlights(book)\<close>, lines 389 to 465.\<close>

definition syncBookHighlights ::
  "platform \<Rightarrow> BookrisePluginSettings \<Rightarrow> remote option \<Rightarrow> (nat \<Rightarrow> ustring) \<Rightarrow> Book \<Rightarrow> world
     \<Rightarrow> unit sync" where
  "syncBookHighlights P settings client random36 book w =
     (case client of
        None \<Rightarrow> (Inr (), w)
      | Some c \<Rightarrow>
          and_then (ensureFolderExists (bookFolderPath settings book) w) (\<lambda>u w1.
            case client_listHighlights c (b_id book) of
              Inl e \<Rightarrow> (Inl e, w1)
            | Inr highlights \<Rightarrow>
                if highlights = None \<or> highlights = Some [] then
                  createOrUpdateFile (mainBookFilePath settings book)
                    (mainBookHeader P book
                     @ (if createNotePerHighlight settings then
                          js ''No highlights found for this book.'' @ [NL]
                        else
                          js ''# Highlights for '' @ b_title book @ [NL, NL]
                          @ js ''(No highlights found or synced for this book.)'' @ [NL]))
                    w1
                else if createNotePerHighlight settings then
                  and_then (ensureFolderExists (highlightsFolder settings book) w1) (\<lambda>u w2.
                    and_then (write_notes P settings book (the highlights) [] w2)
                      (\<lambda>highlightLinks w3.
                        createOrUpdateFile (mainBookFilePath settings book)
                          (mainBookHeader P book @ index_intro
                           @ join [NL] highlightLinks @ [NL])
                          w3))
                else
                  createOrUpdateFile (mainBookFilePath settings book)
                    (mainBookHeader P book
                     @ js ''# Highlights for '' @ b_title book @ [NL, NL]
                     @ listItems P random36 (the highlights))
                    w1))"

text \<open>The loop over the books of \<open>syncAllHighlights\<close>, lines 359 to 368, with its two counters.\<close>

definition book_error_notice :: "Book \<Rightarrow> ustring" where
  "book_error_notice book = js ''Error syncing '' @ b_title book @ js ''. Check console.''"

fun sync_books ::
  "platform \<Rightarrow> BookrisePluginSettings \<Rightarrow> remote option \<Rightarrow> (nat \<Rightarrow> nat \<Rightarrow> ustring) \<Rightarrow> nat
     \<Rightarrow> Book list \<Rightarrow> nat \<times> nat \<Rightarrow> world \<Rightarrow> (nat \<times> nat) \<times> world" where
  "sync_books P settings client random36 i [] counts w = (counts, w)"
| "sync_books P settings client random36 i (book # books) (successCount, errorCount) w =
     (case syncBookHighlights P settings client (random36 i) book w of
        (Inr u, w') \<Rightarrow>
          sync_books P settings client random36 (Suc i) books (Suc successCount, errorCount) w'
      | (Inl bookError, w') \<Rightarrow>
          sync_books P settings client random36 (Suc i) books (successCount, Suc errorCount)
            (emit (Notice (book_error_notice book)) (emit (LogError bookError) w')))"

definition nat_string :: "platform \<Rightarrow> nat \<Rightarrow> ustring" where
  "nat_string P n = number_to_string P (Finite (of_nat n))"

definition summaryNotice :: "platform \<Rightarrow> nat \<Rightarrow> nat \<Rightarrow> ustring" where
  "summaryNotice P successCount errorCount =
     js ''BookRise highlight sync finished.''
     @ (if successCount > 0 then js '' Synced '' @ nat_string P successCount @ js '' books.''
        else [])
     @ (if errorCount > 0 then js '' Failed for '' @ nat_string P errorCount @ js '' books.''
        else [])"

text \<open>
  \<open>syncAllHighlights()\<close>, lines 340 to 382: an error outside the loop over the books
  ends in the outer \<open>catch\<close>, which logs it and tells the user.
\<close>

definition syncAllHighlights ::
  "platform \<Rightarrow> BookrisePluginSettings \<Rightarrow> remote option \<Rightarrow> (nat \<Rightarrow> nat \<Rightarrow> ustring) \<Rightarrow> world
     \<Rightarrow> world" where
  "syncAllHighlights P settings client random36 w =
     (case client of
        None \<Rightarrow> emit (Notice (js ''BookRise client not available. Please check API key.'')) w
      | Some c \<Rightarrow>
          let w0 = emit (Notice (js ''Starting BookRise highlight sync...'')) w;
              failed = (\<lambda>e w'.
                emit (Notice (js ''Error syncing BookRise highlights. Check console for details.''))
                  (emit (LogError e) w'))
          in case books_result c of
               Inl e \<Rightarrow> failed e w0
             | Inr books \<Rightarrow>
                 if books = None \<or> books = Some [] then
                   emit (Notice (js ''No books found in your BookRise library.'')) w0
                 else
                   let w1 = emit (Notice (js ''Found '' @ nat_string P (length (the books))
                                          @ js '' books. Fetching highlights...'')) w0
                   in case ensureFolderExists (bookriseSyncFolder settings) w1 of
                        (Inl e, w2) \<Rightarrow> failed e w2
                      | (Inr u, w2) \<Rightarrow>
                          (case sync_books P settings client random36 0 (the books) (0, 0) w2 of
                             ((successCount, errorCount), w3) \<Rightarrow>
                               emit (Notice (summaryNotice P successCount errorCount)) w3))"


section \<open>Notions the statements use\<close>

text \<open>
  A step of a decoder from \<open>st\<close> to \<open>st'\<close> adds the chunks \<open>cs\<close>: the callback was called
  with them, in this order, each of them has a string, and the answer grew by these
  strings.
\<close>

definition adds :: "platform \<Rightarrow> stream_state \<Rightarrow> stream_state \<Rightarrow> json list \<Rightarrow> bool" where
  "adds P st st' cs \<longleftrightarrow>
     chunks_of (log st') = chunks_of (log st) @ cs
     \<and> (case collect (map (to_string P) cs) of
          Inl e \<Rightarrow> False
        | Inr ss \<Rightarrow> fullAnswer st' = fullAnswer st @ concat ss)"

text \<open>
  The chunks a payload emits, read off \<open>stream_data\<close> and \<open>fetch_data\<close>: the lemmas
  \<open>stream_data_adds\<close> and \<open>fetch_data_adds\<close> show that the decoders add exactly these.
\<close>

text \<open>The payload's own text as a chunk, which \<open>emitChunk\<close> drops when it is empty.\<close>

definition raw_text :: "ustring \<Rightarrow> json list" where
  "raw_text data = (if data = [] then [] else [JString data])"

definition stream_emits :: "platform \<Rightarrow> ustring \<Rightarrow> json list" where
  "stream_emits P data =
     (case json_parse P data of
        None \<Rightarrow> raw_text data
      | Some parsed \<Rightarrow>
          (case select_chunk parsed of
             Inl e \<Rightarrow> raw_text data
           | Inr None \<Rightarrow> []
           | Inr (Some c) \<Rightarrow>
               if \<not> truthy c then []
               else (case to_string P c of Inl e \<Rightarrow> raw_text data | Inr s \<Rightarrow> [c])))"

definition fetch_emits :: "platform \<Rightarrow> ustring \<Rightarrow> json list" where
  "fetch_emits P data =
     (case json_parse P data of
        None \<Rightarrow> []
      | Some parsed \<Rightarrow>
          (case select_chunk parsed of
             Inl e \<Rightarrow> []
           | Inr None \<Rightarrow> []
           | Inr (Some c) \<Rightarrow> (case to_string P c of Inl e \<Rightarrow> [] | Inr s \<Rightarrow> [c])))"

text \<open>
  The answer so far is the concatenation of the strings of the chunks passed to the
  callback so far.
\<close>

definition answer_matches :: "platform \<Rightarrow> stream_state \<Rightarrow> bool" where
  "answer_matches P st \<longleftrightarrow>
     (case collect (map (to_string P) (chunks_of (log st))) of
        Inl e \<Rightarrow> False
      | Inr ss \<Rightarrow> fullAnswer st = concat ss)"

text \<open>The file writes among the events of a run: the path and the content of each, in order.\<close>

definition writes_of :: "store_event list \<Rightarrow> (ustring \<times> ustring) list" where
  "writes_of evs =
     concat (map (\<lambda>ev. case ev of
                          CreateFile p c \<Rightarrow> [(p, c)]
                        | ModifyFile p c \<Rightarrow> [(p, c)]
                        | _ \<Rightarrow> []) evs)"

text \<open>From \<open>w\<close> to \<open>w'\<close> the run wrote exactly the files \<open>ws\<close>, in this order.\<close>

definition wrote :: "world \<Rightarrow> world \<Rightarrow> (ustring \<times> ustring) list \<Rightarrow> bool" where
  "wrote w w' ws \<longleftrightarrow> (\<exists>evs. trace w' = trace w @ evs \<and> writes_of evs = ws)"

text \<open>
  The calls to the vault helpers that the sync of a book makes, as a list: the proofs show
  that \<open>syncBookHighlights\<close> runs this list, and reason about running a list.
\<close>

datatype op = EnsureFolder ustring | WriteFile ustring ustring

fun run_op :: "op \<Rightarrow> world \<Rightarrow> unit sync" where
  "run_op (EnsureFolder p) w = ensureFolderExists p w"
| "run_op (WriteFile p c) w = createOrUpdateFile p c w"

fun run_plan :: "op list \<Rightarrow> world \<Rightarrow> unit sync" where
  "run_plan [] w = (Inr (), w)"
| "run_plan (x # xs) w = and_then (run_op x w) (\<lambda>u w'. run_plan xs w')"

fun plan_writes :: "op list \<Rightarrow> (ustring \<times> ustring) list" where
  "plan_writes [] = []"
| "plan_writes (EnsureFolder p # xs) = plan_writes xs"
| "plan_writes (WriteFile p c # xs) = (p, c) # plan_writes xs"

fun plan_folders :: "op list \<Rightarrow> ustring list" where
  "plan_folders [] = []"
| "plan_folders (EnsureFolder p # xs) = p # plan_folders xs"
| "plan_folders (WriteFile p c # xs) = plan_folders xs"

definition put :: "(ustring \<Rightarrow> entry option) \<Rightarrow> ustring \<times> ustring \<Rightarrow> (ustring \<Rightarrow> entry option)" where
  "put v pc = v(fst pc \<mapsto> TFile (snd pc))"

text \<open>
  A world fits a helper call that a run has made: the path of \<open>ensureFolderExists\<close> holds
  a folder (or a file, if the call lets that pass), the path of a write holds a file.
\<close>

fun fits :: "world \<Rightarrow> op \<Rightarrow> bool" where
  "fits w (EnsureFolder p) =
     (case vault w p of
        Some TFolder \<Rightarrow> True
      | Some (TFile c) \<Rightarrow> says_folder_exists (NotAFolder p)
      | None \<Rightarrow> False)"
| "fits w (WriteFile p c) = (case vault w p of Some (TFile old) \<Rightarrow> True | _ \<Rightarrow> False)"

definition book_plan ::
  "platform \<Rightarrow> BookrisePluginSettings \<Rightarrow> (nat \<Rightarrow> ustring) \<Rightarrow> Book \<Rightarrow> Highlight list option
     \<Rightarrow> op list" where
  "book_plan P settings random36 book highlights =
     EnsureFolder (bookFolderPath settings book)
     # (if highlights = None \<or> highlights = Some [] then
          [WriteFile (mainBookFilePath settings book)
             (mainBookHeader P book
              @ (if createNotePerHighlight settings then
                   js ''No highlights found for this book.'' @ [NL]
                 else
                   js ''# Highlights for '' @ b_title book @ [NL, NL]
                   @ js ''(No highlights found or synced for this book.)'' @ [NL]))]
        else if createNotePerHighlight settings then
          EnsureFolder (highlightsFolder settings book)
          # map (\<lambda>hl. WriteFile (noteFilePath settings book hl) (noteContent P book hl))
                (the highlights)
          @ [WriteFile (mainBookFilePath settings book)
               (mainBookHeader P book @ index_intro
                @ join [NL] (map highlightLink (the highlights)) @ [NL])]
        else
          [WriteFile (mainBookFilePath settings book)
             (mainBookHeader P book
              @ js ''# Highlights for '' @ b_title book @ [NL, NL]
              @ listItems P random36 (the highlights))])"


section \<open>A platform for concrete runs\<close>

text \<open>
  The concrete runs below need the built-ins at a few arguments only; on them, this table
  gives what the language gives: \<open>JSON.parse\<close> of the texts listed (a SyntaxError for any
  other text, true of \<open>x\<close> and of \<open>{oops\<close>, the other texts parsed below), the decimal
  form of the numbers 1 and 12, and lower case on the letters A to Z.
\<close>

definition sample_parse :: "ustring \<Rightarrow> json option" where
  \<open>sample_parse t =
     (if t = js ''[]'' then Some (JArray [])
      else if t = js ''null'' then Some JNull
      else if t = js ''""'' then Some (JString [])
      else if t = js ''"hi"'' then Some (JString (js ''hi''))
      else if t = js ''{"content":"Hel"}'' then Some (JObject [(js ''content'', JString (js ''Hel''))])
      else if t = js ''{"content":"lo"}'' then Some (JObject [(js ''content'', JString (js ''lo''))])
      else if t = js ''{"content":true}'' then Some (JObject [(js ''content'', JBool True)])
      else if t = js ''{"answer":"B","content":"A","delta":"C"}'' then
        Some (JObject [(js ''answer'', JString (js ''B'')), (js ''content'', JString (js ''A'')),
                       (js ''delta'', JString (js ''C''))])
      else if t = js ''{"answer":"B","content":"","delta":"C"}'' then
        Some (JObject [(js ''answer'', JString (js ''B'')), (js ''content'', JString []),
                       (js ''delta'', JString (js ''C''))])
      else if t = js ''{"delta":"C"}'' then Some (JObject [(js ''delta'', JString (js ''C''))])
      else if t = js ''{"title":"T"}'' then Some (JObject [(js ''title'', JString (js ''T''))])
      else if t = js ''{"content":{"toString":1},"answer":"B"}'' then
        Some (JObject [(js ''content'', JObject [(js ''toString'', JNumber (Finite 1))]),
                       (js ''answer'', JString (js ''B''))])
      else if t = js ''[{"id":"b1","title":"Dune"}]'' then
        Some (JArray [JObject [(js ''id'', JString (js ''b1'')), (js ''title'', JString (js ''Dune''))]])
      else None)\<close>

definition sample_number_to_string :: "number \<Rightarrow> ustring" where
  "sample_number_to_string n =
     (if n = Finite 1 then js ''1'' else if n = Finite 12 then js ''12'' else js ''0'')"

definition sample_to_lower_case :: "ustring \<Rightarrow> ustring" where
  "sample_to_lower_case s = map (\<lambda>c. if 0x41 \<le> c \<and> c \<le> 0x5A then c + 0x20 else c) s"

definition sample_platform :: platform where
  "sample_platform =
     \<lparr> json_parse = sample_parse,
       json_stringify = (\<lambda>v. js ''{}''),
       number_to_string = sample_number_to_string,
       to_lower_case = sample_to_lower_case \<rparr>"

text \<open>
  A remote with one book, \<open>b1\<close>, that streams \<open>Hel\<close>, \<open>lo\<close> and the end marker: to
  \<open>requestUrl\<close> as one body, to \<open>fetch\<close> in two reads.
\<close>

definition sample_stream :: "ustring list" where
  \<open>sample_stream = [js ''data: {"content":"Hel"}'', js ''data: {"content":"lo"}'', js ''data: [DONE]'']\<close>

definition sample_executor :: executor where
  \<open>sample_executor q =
     (if q_method q = js ''GET'' then
        Inr \<lparr> r_status = 200, r_text = js ''[{"id":"b1","title":"Dune"}]'' \<rparr>
      else Inr \<lparr> r_status = 200, r_text = join [NL] sample_stream @ [NL] \<rparr>)\<close>

definition sample_fetch :: fetcher where
  "sample_fetch q =
     Inr \<lparr> f_ok = True, f_status = 200, f_text = [],
           f_body = Some [Chunk (hd sample_stream @ [NL]), Chunk (join [NL] (tl sample_stream))] \<rparr>"

definition sample_state :: stream_state where
  "sample_state = \<lparr> fullAnswer = [], citedChapters = [], log = [] \<rparr>"

text \<open>A stream whose one read is the line \<open>data: ""\<close>: the payload is the empty JSON string.\<close>

definition empty_string_fetch :: fetcher where
  \<open>empty_string_fetch q =
     Inr \<lparr> f_ok = True, f_status = 200, f_text = [], f_body = Some [Chunk (js ''data: ""'')] \<rparr>\<close>

definition empty_string_executor :: executor where
  \<open>empty_string_executor q =
     (if q_method q = js ''GET'' then
        Inr \<lparr> r_status = 200, r_text = js ''[{"id":"b1","title":"Dune"}]'' \<rparr>
      else Inr \<lparr> r_status = 200, r_text = js ''data: ""'' \<rparr>)\<close>

text \<open>A remote that answers every request with status 200 and an empty body.\<close>

definition empty_body_executor :: executor where
  "empty_body_executor q = Inr \<lparr> r_status = 200, r_text = [] \<rparr>"

section \<open>A library for concrete runs\<close>

definition sample_book :: Book where
  "sample_book =
     \<lparr> b_id = js ''b1'', b_title = js ''Dune'', b_author = Some (js ''Frank Herbert''),
       b_isbn = None, b_tags = None, b_percent_read = None, b_assistant_id = None \<rparr>"

text \<open>A book without an id: \<open>listHighlights\<close> refuses it, so its sync fails.\<close>

definition nameless_book :: Book where
  "nameless_book =
     \<lparr> b_id = [], b_title = js ''Lost'', b_author = None,
       b_isbn = None, b_tags = None, b_percent_read = None, b_assistant_id = None \<rparr>"

definition other_book :: Book where
  "other_book =
     \<lparr> b_id = js ''b3'', b_title = js ''Emma'', b_author = None,
       b_isbn = None, b_tags = None, b_percent_read = None, b_assistant_id = None \<rparr>"

definition highlight :: "ustring \<Rightarrow> ustring \<Rightarrow> Highlight" where
  "highlight i t =
     \<lparr> h_id = i, h_book_id = Some (js ''b1''), h_user_id = None, h_cfi_range = None,
       h_text_content = Some t, h_page = Some (Finite 12), h_location = None,
       h_color = Some (js ''Yellow''), h_note = None, h_created_at = None,
       h_updated_at = None \<rparr>"

definition hl_first :: Highlight where
  "hl_first = highlight (js ''aaaaaaaa-1'') (js ''Fear is the mind-killer'')"

definition hl_second :: Highlight where
  "hl_second = highlight (js ''bbbbbbbb-2'') (js ''I must not fear'')"

text \<open>
  A highlight other than \<open>hl_first\<close> with the same text, whose id starts with the same
  eight code units.
\<close>

definition hl_twin :: Highlight where
  "hl_twin = highlight (js ''aaaaaaaa-2'') (js ''Fear is the mind-killer'')"

definition one_file_settings :: BookrisePluginSettings where
  "one_file_settings =
     \<lparr> bookriseApiKey = js ''key'', bookriseSyncFolder = js ''BookRise'',
       createNotePerHighlight = False \<rparr>"

definition note_per_highlight_settings :: BookrisePluginSettings where
  "note_per_highlight_settings =
     \<lparr> bookriseApiKey = js ''key'', bookriseSyncFolder = js ''BookRise'',
       createNotePerHighlight = True \<rparr>"

definition sample_remote :: "Book list \<Rightarrow> Highlight list \<Rightarrow> remote" where
  "sample_remote books hls =
     \<lparr> books_result = Inr (Some books), highlights_result = (\<lambda>bookId. Inr (Some hls)) \<rparr>"

definition empty_world :: world where
  "empty_world = \<lparr> vault = (\<lambda>p. None), trace = [] \<rparr>"

definition no_random :: "nat \<Rightarrow> ustring" where
  "no_random i = []"

definition other_random :: "nat \<Rightarrow> ustring" where
  "other_random i = js ''0.4fzyo82mvyr''"


section \<open>Properties of the file-name sanitizer\<close>

lemma replace_runs_head:
  assumes "s = [] \<or> \<not> p (hd s)"
  shows "replace_runs p r s = [] \<or> \<not> p (hd (replace_runs p r s))"
  using assms by (cases s) auto

lemma dropWhile_head: "dropWhile p s = [] \<or> \<not> p (hd (dropWhile p s))"
  using hd_dropWhile [of p s] by blast

lemma dropWhile_replace_runs:
  "dropWhile p (replace_runs p r (dropWhile p s)) = replace_runs p r (dropWhile p s)"
proof -
  have "replace_runs p r (dropWhile p s) = [] \<or> \<not> p (hd (replace_runs p r (dropWhile p s)))"
    by (rule replace_runs_head) (rule dropWhile_head)
  then show ?thesis
    by (cases "replace_runs p r (dropWhile p s)") auto
qed

lemma replace_runs_idem:
  assumes "p x"
  shows "replace_runs p [x] (replace_runs p [x] s) = replace_runs p [x] s"
proof (induction p "[x]" s rule: replace_runs.induct)
  case (1 p)
  show ?case by simp
next
  case (2 p c cs)
  show ?case
  proof (cases "p c")
    case True
    with 2 assms show ?thesis
      by (simp add: dropWhile_replace_runs)
  next
    case False
    with 2 show ?thesis by simp
  qed
qed

lemma set_replace_runs: "set (replace_runs p r s) \<subseteq> set s \<union> set r"
proof (induction p r s rule: replace_runs.induct)
  case (1 p r)
  show ?case by simp
next
  case (2 p r c cs)
  have "set (dropWhile p cs) \<subseteq> set cs"
    by (rule set_dropWhileD [THEN subsetI])
  with 2 show ?case by auto
qed

lemma replace_each_none: "\<forall>c \<in> set s. \<not> p c \<Longrightarrow> replace_each p r s = s"
  by (induction s) (auto simp: replace_each_def)

lemma set_replace_each:
  "c \<in> set (replace_each p r s) \<Longrightarrow> c \<in> set r \<or> (c \<in> set s \<and> \<not> p c)"
proof (induction s)
  case Nil
  then show ?case by (simp add: replace_each_def)
next
  case (Cons d s)
  then have "c \<in> set (if p d then r else [d]) \<or> c \<in> set (replace_each p r s)"
    by (simp add: replace_each_def)
  with Cons.IH show ?case
    by (cases "p d") auto
qed

lemma space_not_forbidden: "\<not> is_forbidden 0x20"
  by (simp add: is_forbidden_def js_def DQ_def)

lemma dash_not_forbidden: "\<not> is_forbidden 0x2D"
  by (simp add: is_forbidden_def js_def DQ_def)

lemma sanitizeFileName_clean: "\<forall>c \<in> set (sanitizeFileName s). \<not> is_forbidden c"
proof
  fix c
  assume "c \<in> set (sanitizeFileName s)"
  then have "c \<in> set (replace_each is_forbidden (js ''-'') s) \<or> c = 0x20"
    using set_replace_runs [of is_space "js '' ''" "replace_each is_forbidden (js ''-'') s"]
    by (auto simp: sanitizeFileName_def js_def)
  moreover have "\<not> is_forbidden d" if "d \<in> set (replace_each is_forbidden (js ''-'') s)" for d
    using set_replace_each [OF that] dash_not_forbidden by (auto simp: js_def)
  ultimately show "\<not> is_forbidden c"
    using space_not_forbidden by blast
qed

text \<open>
  C10. Sanitizing a sanitized name changes nothing: the first pass leaves no forbidden code
  unit and no run of white space other than a single space, so the second pass finds
  nothing to replace but single spaces by themselves.
\<close>

theorem sanitizeFileName_idempotent:
  "sanitizeFileName (sanitizeFileName s) = sanitizeFileName s"
proof -
  have "replace_each is_forbidden (js ''-'') (sanitizeFileName s) = sanitizeFileName s"
    by (rule replace_each_none) (rule sanitizeFileName_clean)
  moreover have "is_space 0x20"
    by (simp add: is_space_def)
  ultimately show ?thesis
    by (simp add: sanitizeFileName_def js_def replace_runs_idem)
qed

section \<open>Properties of the response normalizer\<close>

lemma request_sent:
  assumes "requestUrlFn (requestOptions token endpoint options) = Inr response"
  shows "request P requestUrlFn token endpoint options =
           (fst (handle_response P (baseUrl @ endpoint) response),
            Sent (requestOptions token endpoint options)
              # snd (handle_response P (baseUrl @ endpoint) response))"
  using assms by (simp add: request_def Let_def requestOptions_def split: prod.splits)

text \<open>
  C6. When the executor answers with a response: status 204 gives \<open>null\<close> whatever the
  body; another status from 200 to 299 with an empty body gives \<open>null\<close> and one warning,
  no error; and such a status with a body gives the parsed body (the SyntaxError of
  \<open>JSON.parse\<close> where the body does not parse). The first case goes before the third,
  as the claim's "regardless of the body" says.
\<close>

theorem request_success_policy:
  assumes "requestUrlFn (requestOptions token endpoint options) = Inr response"
  shows "(r_status response = 204 \<longrightarrow>
            fst (request P requestUrlFn token endpoint options) = Inr JNull)
       \<and> (200 \<le> r_status response \<and> r_status response < 300 \<and> r_status response \<noteq> 204
            \<and> r_text response = [] \<longrightarrow>
            request P requestUrlFn token endpoint options =
              (Inr JNull,
               [Sent (requestOptions token endpoint options),
                WarnEmptyResponse (r_status response) (baseUrl @ endpoint)]))
       \<and> (200 \<le> r_status response \<and> r_status response < 300 \<and> r_status response \<noteq> 204
            \<and> r_text response \<noteq> [] \<longrightarrow>
            fst (request P requestUrlFn token endpoint options) =
              (case json_parse P (r_text response) of
                 None \<Rightarrow> Inl SyntaxError
               | Some v \<Rightarrow> Inr v))"
proof -
  note sent = request_sent [of requestUrlFn token endpoint options response P, OF assms]
  show ?thesis
    unfolding sent by (simp add: handle_response_def split: option.splits)
qed


theorem request_success_policy_witness:
  "fst (request sample_platform (\<lambda>q. Inr \<lparr> r_status = 204, r_text = js ''x'' \<rparr>)
          (js ''key'') (js ''/api/books'') no_options) = Inr JNull
   \<and> request sample_platform (\<lambda>q. Inr \<lparr> r_status = 200, r_text = [] \<rparr>)
          (js ''key'') (js ''/api/books'') no_options =
       (Inr JNull,
        [Sent (requestOptions (js ''key'') (js ''/api/books'') no_options),
         WarnEmptyResponse 200 (baseUrl @ js ''/api/books'')])
   \<and> fst (request sample_platform (\<lambda>q. Inr \<lparr> r_status = 200, r_text = js ''[]'' \<rparr>)
          (js ''key'') (js ''/api/books'') no_options) = Inr (JArray [])"
proof -
  have parsed: "json_parse sample_platform (js ''[]'') = Some (JArray [])"
    by (simp add: sample_platform_def sample_parse_def)
  have nonempty: "js ''[]'' \<noteq> []"
    by (simp add: js_def)
  show ?thesis
    using request_success_policy
            [of "\<lambda>q. Inr \<lparr> r_status = 204, r_text = js ''x'' \<rparr>" "js ''key''"
                "js ''/api/books''" no_options "\<lparr> r_status = 204, r_text = js ''x'' \<rparr>"
                sample_platform]
          request_success_policy
            [of "\<lambda>q. Inr \<lparr> r_status = 200, r_text = [] \<rparr>" "js ''key''"
                "js ''/api/books''" no_options "\<lparr> r_status = 200, r_text = [] \<rparr>"
                sample_platform]
          request_success_policy
            [of "\<lambda>q. Inr \<lparr> r_status = 200, r_text = js ''[]'' \<rparr>" "js ''key''"
                "js ''/api/books''" no_options "\<lparr> r_status = 200, r_text = js ''[]'' \<rparr>"
                sample_platform]
    by (simp add: parsed nonempty)
qed


section \<open>Properties of the stream decoders\<close>

lemma chunks_of_Nil [simp]: "chunks_of [] = []"
  by (simp add: chunks_of_def)

lemma chunks_of_append [simp]: "chunks_of (a @ b) = chunks_of a @ chunks_of b"
  by (simp add: chunks_of_def)

lemma chunks_of_Cons:
  "chunks_of (e # es) = (case e of OnChunk c \<Rightarrow> [c] | _ \<Rightarrow> []) @ chunks_of es"
  by (simp add: chunks_of_def)

lemma chunks_of_single [simp]:
  "chunks_of [OnChunk c] = [c]"
  "chunks_of [WarnParseFailed e] = []"
  "chunks_of [Sent q] = []"
  "chunks_of [Fetched q] = []"
  by (simp_all add: chunks_of_def)

lemma append_chunk_simps [simp]:
  "log (append_chunk st c s) = log st @ [OnChunk c]"
  "fullAnswer (append_chunk st c s) = fullAnswer st @ s"
  "citedChapters (append_chunk st c s) = citedChapters st"
  by (simp_all add: append_chunk_def)

lemma deliver_cases:
  "to_string P c = Inr s \<Longrightarrow> deliver P st c = Inr (append_chunk st c s)"
  "to_string P c = Inl e \<Longrightarrow> deliver P st c = Inl e"
  by (simp_all add: deliver_def)

lemma emitChunk_cases:
  "\<not> truthy c \<Longrightarrow> emitChunk P st c = Inr st"
  "truthy c \<Longrightarrow> to_string P c = Inr s \<Longrightarrow> emitChunk P st c = Inr (append_chunk st c s)"
  "truthy c \<Longrightarrow> to_string P c = Inl e \<Longrightarrow> emitChunk P st c = Inl e"
  by (simp_all add: emitChunk_def deliver_def)

text \<open>The \<open>catch\<close> of \<open>part_001\<close> calls \<open>emitChunk\<close> on a string, where it cannot throw.\<close>

lemma emitChunk_on_text: "emitChunk P st (JString data) = Inr (emitChunk_text st data)"
  by (simp add: emitChunk_def emitChunk_text_def deliver_def)

lemma warn_simps [simp]:
  "log (warn st e) = log st @ [WarnParseFailed e]"
  "fullAnswer (warn st e) = fullAnswer st"
  "citedChapters (warn st e) = citedChapters st"
  by (simp_all add: warn_def)

lemma note_chapters_simps [simp]:
  "log (note_chapters st cc) = log st"
  "fullAnswer (note_chapters st cc) = fullAnswer st"
  by (simp_all add: note_chapters_def split: option.splits json.splits)

lemma concat_chapters_simps [simp]:
  "log (concat_chapters st cc) = log st"
  "fullAnswer (concat_chapters st cc) = fullAnswer st"
  by (simp_all add: concat_chapters_def split: option.splits json.splits)

text \<open>A list of conversions all succeed exactly when each of them gave a string.\<close>

lemma collect_eq_Inr: "collect xs = Inr ss \<longleftrightarrow> xs = map Inr ss"
proof (induction xs arbitrary: ss)
  case Nil
  show ?case by auto
next
  case (Cons x xs)
  show ?case
  proof (cases x)
    case (Inl e)
    then show ?thesis by (cases ss) auto
  next
    case (Inr v)
    show ?thesis
    proof (cases "collect xs")
      case failed: (Inl e)
      with Cons.IH have "xs \<noteq> map Inr ss'" for ss'
        by (metis sum.distinct(1))
      with Inr failed show ?thesis by (cases ss) auto
    next
      case strings: (Inr vs)
      with Cons.IH [of vs] have "xs = map Inr vs"
        by simp
      with Inr strings show ?thesis by (cases ss) auto
    qed
  qed
qed

lemma collect_cases:
  "(case collect xs of Inl e \<Rightarrow> False | Inr ss \<Rightarrow> Q ss) \<longleftrightarrow> (\<exists>ss. xs = map Inr ss \<and> Q ss)"
proof (cases "collect xs")
  case (Inl e)
  then have "xs \<noteq> map Inr ss" for ss
    using collect_eq_Inr [of xs ss] by simp
  with Inl show ?thesis by simp
next
  case (Inr vs)
  then have "xs = map Inr vs"
    by (simp add: collect_eq_Inr)
  then have "xs = map Inr ss \<longleftrightarrow> ss = vs" for ss
    by (auto simp: inj_map_eq_map)
  with Inr show ?thesis by auto
qed

text \<open>What one step of a decoder adds: the chunks \<open>cs\<close>, to the callback and to the answer.\<close>

lemma adds_iff:
  "adds P st st' cs \<longleftrightarrow>
     chunks_of (log st') = chunks_of (log st) @ cs
     \<and> (\<exists>ss. map (to_string P) cs = map Inr ss \<and> fullAnswer st' = fullAnswer st @ concat ss)"
  by (simp add: adds_def collect_cases)

lemma answer_matches_iff:
  "answer_matches P st \<longleftrightarrow>
     (\<exists>ss. map (to_string P) (chunks_of (log st)) = map Inr ss \<and> fullAnswer st = concat ss)"
  by (simp add: answer_matches_def collect_cases)


lemma adds_refl: "adds P st st []"
  by (simp add: adds_iff)

lemma adds_warn: "adds P st (warn st e) []"
  by (simp add: adds_iff)

lemma adds_append_chunk: "to_string P c = Inr s \<Longrightarrow> adds P st (append_chunk st c s) [c]"
  unfolding adds_iff by (intro conjI exI [of _ "[s]"]) simp_all

lemma adds_emitChunk_text: "adds P st (emitChunk_text st data) (raw_text data)"
  using adds_append_chunk [of P "JString data" data st]
  by (simp add: emitChunk_text_def raw_text_def adds_refl)

lemma adds_trans:
  assumes "adds P s t xs" and "adds P t u ys"
  shows "adds P s u (xs @ ys)"
proof -
  from assms obtain ss1 ss2 where
    "map (to_string P) xs = map Inr ss1" "fullAnswer t = fullAnswer s @ concat ss1"
    "map (to_string P) ys = map Inr ss2" "fullAnswer u = fullAnswer t @ concat ss2"
    by (auto simp: adds_iff)
  then have "map (to_string P) (xs @ ys) = map Inr (ss1 @ ss2)
      \<and> fullAnswer u = fullAnswer s @ concat (ss1 @ ss2)"
    by simp
  then show ?thesis
    using assms unfolding adds_iff by (intro conjI exI [of _ "ss1 @ ss2"]) simp_all
qed

lemma adds_note_chapters: "adds P s t xs \<Longrightarrow> adds P s (note_chapters t cc) xs"
  by (simp add: adds_iff)

lemma adds_concat_chapters: "adds P s t xs \<Longrightarrow> adds P s (concat_chapters t cc) xs"
  by (simp add: adds_iff)

lemma select_chunk_null: "select_chunk parsed = Inl e \<longleftrightarrow> parsed = JNull \<and> e = TypeError"
  by (cases parsed) (auto simp: select_chunk_def split: if_splits)

lemma get_prop_error: "get_prop parsed name = Inl e \<longleftrightarrow> parsed = JNull \<and> e = TypeError"
  by (cases parsed) auto

text \<open>The chunks a payload makes each revision emit.\<close>

lemma adds_caught: "adds P st (emitChunk_text (warn st e) data) (raw_text data)"
  using adds_trans [OF adds_warn adds_emitChunk_text, of P st e data] by simp

lemma stream_data_adds: "adds P st (stream_data P st data) (stream_emits P data)"
proof (cases "json_parse P data")
  case None
  then show ?thesis
    by (simp add: stream_data_def stream_emits_def adds_caught)
next
  case (Some parsed)
  show ?thesis
  proof (cases "select_chunk parsed")
    case (Inl e)
    with Some show ?thesis
      by (simp add: stream_data_def stream_emits_def adds_caught)
  next
    case (Inr sel)
    then have "parsed \<noteq> JNull"
      by (auto simp: select_chunk_def)
    then obtain cc where cc: "get_prop parsed (js ''cited_chapters'') = Inr cc"
      by (cases parsed) auto
    show ?thesis
    proof (cases sel)
      case None
      with Some Inr cc show ?thesis
        by (simp add: stream_data_def stream_emits_def adds_note_chapters adds_refl)
    next
      case chosen: (Some c)
      show ?thesis
      proof (cases "truthy c")
        case False
        with Some Inr cc chosen show ?thesis
          by (simp add: stream_data_def stream_emits_def emitChunk_cases adds_note_chapters
                adds_refl)
      next
        case True
        show ?thesis
        proof (cases "to_string P c")
          case failed: (Inl e)
          with Some Inr chosen True show ?thesis
            by (simp add: stream_data_def stream_emits_def emitChunk_cases adds_caught)
        next
          case string: (Inr s)
          with Some Inr cc chosen True show ?thesis
            by (simp add: stream_data_def stream_emits_def emitChunk_cases adds_note_chapters
                  adds_append_chunk)
        qed
      qed
    qed
  qed
qed

lemma fetch_data_adds: "adds P st (fetch_data P st data) (fetch_emits P data)"
proof (cases "json_parse P data")
  case None
  then show ?thesis
    by (simp add: fetch_data_def fetch_emits_def adds_warn)
next
  case (Some parsed)
  show ?thesis
  proof (cases "select_chunk parsed")
    case (Inl e)
    with Some show ?thesis
      by (simp add: fetch_data_def fetch_emits_def adds_warn)
  next
    case (Inr sel)
    then have "parsed \<noteq> JNull"
      by (auto simp: select_chunk_def)
    then obtain cc where cc: "get_prop parsed (js ''cited_chapters'') = Inr cc"
      by (cases parsed) auto
    show ?thesis
    proof (cases sel)
      case None
      with Some Inr cc show ?thesis
        by (simp add: fetch_data_def fetch_emits_def adds_concat_chapters adds_refl)
    next
      case chosen: (Some c)
      show ?thesis
      proof (cases "to_string P c")
        case failed: (Inl e)
        with Some Inr chosen show ?thesis
          by (simp add: fetch_data_def fetch_emits_def deliver_cases adds_warn)
      next
        case string: (Inr s)
        with Some Inr cc chosen show ?thesis
          by (simp add: fetch_data_def fetch_emits_def deliver_cases adds_concat_chapters
                adds_append_chunk)
      qed
    qed
  qed
qed

lemma stream_emits_length: "length (stream_emits P data) \<le> 1"
  by (simp add: stream_emits_def raw_text_def split: option.splits sum.splits)

lemma fetch_emits_length: "length (fetch_emits P data) \<le> 1"
  by (simp add: fetch_emits_def split: option.splits sum.splits)

lemma adds_nothing: "\<exists>cs. length cs \<le> 1 \<and> adds P st st cs"
  by (rule exI [of _ "[]"]) (simp add: adds_refl)

lemma raw_text_truthy: "c \<in> set (raw_text data) \<Longrightarrow> truthy c"
  by (auto simp: raw_text_def split: if_splits)

lemma stream_emits_truthy:
  assumes "c \<in> set (stream_emits P data)"
  shows "truthy c"
proof (cases "json_parse P data")
  case None
  with assms show ?thesis
    by (simp add: stream_emits_def raw_text_truthy)
next
  case (Some parsed)
  show ?thesis
  proof (cases "select_chunk parsed")
    case (Inl e)
    with Some assms show ?thesis
      by (simp add: stream_emits_def raw_text_truthy)
  next
    case (Inr sel)
    show ?thesis
    proof (cases sel)
      case None
      with Some Inr assms show ?thesis
        by (simp add: stream_emits_def)
    next
      case chosen: (Some c')
      with Some Inr assms show ?thesis
        by (cases "truthy c'"; cases "to_string P c'")
           (simp_all add: stream_emits_def raw_text_truthy)
    qed
  qed
qed

lemma stream_line_adds:
  "\<exists>cs. length cs \<le> 1 \<and> (\<forall>c \<in> set cs. truthy c) \<and> adds P st (stream_line P st rawLine) cs"
proof (cases "stream_payload rawLine")
  case None
  then have "stream_line P st rawLine = st"
    by (simp add: stream_line_def)
  then show ?thesis
    using adds_refl [of P st] by (intro exI [of _ "[]"]) simp
next
  case (Some data)
  show ?thesis
  proof (cases "data = [] \<or> data = js ''[DONE]''")
    case True
    with Some have "stream_line P st rawLine = st"
      by (simp add: stream_line_def)
    then show ?thesis
      using adds_refl [of P st] by (intro exI [of _ "[]"]) simp
  next
    case False
    with Some have "stream_line P st rawLine = stream_data P st data"
      by (simp add: stream_line_def)
    then show ?thesis
      using stream_data_adds [of P st data] stream_emits_length [of P data]
        stream_emits_truthy [of _ P data]
      by (intro exI [of _ "stream_emits P data"]) simp
  qed
qed

lemma fetch_line_adds: "\<exists>cs. length cs \<le> 1 \<and> adds P st (fetch_line P st line) cs"
proof (cases "fetch_payload line")
  case None
  then show ?thesis
    using adds_nothing [of P st] by (simp add: fetch_line_def)
next
  case (Some data)
  show ?thesis
  proof (cases "data = js ''[DONE]''")
    case True
    with Some have "fetch_line P st line = st"
      by (simp add: fetch_line_def)
    then show ?thesis
      using adds_nothing [of P st] by simp
  next
    case False
    with Some have "fetch_line P st line = fetch_data P st data"
      by (simp add: fetch_line_def)
    then show ?thesis
      using fetch_data_adds [of P st data] fetch_emits_length [of P data] by metis
  qed
qed

lemma adds_answer_matches:
  assumes "adds P st st' cs" and "answer_matches P st"
  shows "answer_matches P st'"
proof -
  from assms obtain ss0 ss where
    "map (to_string P) (chunks_of (log st)) = map Inr ss0" "fullAnswer st = concat ss0"
    "chunks_of (log st') = chunks_of (log st) @ cs"
    "map (to_string P) cs = map Inr ss" "fullAnswer st' = fullAnswer st @ concat ss"
    by (auto simp: adds_iff answer_matches_iff)
  then have "map (to_string P) (chunks_of (log st')) = map Inr (ss0 @ ss)
      \<and> fullAnswer st' = concat (ss0 @ ss)"
    by simp
  then show ?thesis
    unfolding answer_matches_iff by (rule exI)
qed

lemma stream_lines_answer_matches:
  "answer_matches P st \<Longrightarrow> answer_matches P (foldl (stream_line P) st ls)"
proof (induction ls arbitrary: st)
  case Nil
  then show ?case by simp
next
  case (Cons l ls)
  from stream_line_adds [of P st l] Cons.prems have "answer_matches P (stream_line P st l)"
    using adds_answer_matches by blast
  then show ?case
    using Cons.IH by simp
qed

lemma fetch_lines_answer_matches:
  "answer_matches P st \<Longrightarrow> answer_matches P (foldl (fetch_line P) st ls)"
proof (induction ls arbitrary: st)
  case Nil
  then show ?case by simp
next
  case (Cons l ls)
  from fetch_line_adds [of P st l] Cons.prems have "answer_matches P (fetch_line P st l)"
    using adds_answer_matches by blast
  then show ?case
    using Cons.IH by simp
qed

lemma read_loop_answer:
  "answer_matches P st \<Longrightarrow> read_loop P st reads = (Inr r, evs)
     \<Longrightarrow> \<exists>ss. map (to_string P) (chunks_of evs) = map Inr ss \<and> answer r = concat ss"
proof (induction P st reads rule: read_loop.induct)
  case (1 P st)
  then show ?case by (auto simp: answer_matches_iff)
next
  case (2 P st rest)
  then show ?case by simp
next
  case (3 P st c rest)
  then show ?case
    using fetch_lines_answer_matches [of P st "split_on NL c"] by simp
qed

lemma chat_stream_answer:
  assumes "chat_stream P requestUrlFn token b = (Inr r, evs)"
  shows "\<exists>ss. map (to_string P) (chunks_of evs) = map Inr ss \<and> answer r = concat ss"
proof -
  let ?req = "stream_request P token b"
  let ?init = "\<lparr> fullAnswer = [], citedChapters = [], log = [Sent ?req] \<rparr>"
  obtain response where resp: "requestUrlFn ?req = Inr response"
    using assms by (cases "requestUrlFn ?req") (auto simp: chat_stream_def Let_def)
  let ?st = "foldl (stream_line P) ?init (split_lines (r_text response))"
  have "answer_matches P ?init"
    by (simp add: answer_matches_iff)
  then have "answer_matches P ?st"
    by (rule stream_lines_answer_matches)
  moreover have "answer r = fullAnswer ?st \<and> evs = log ?st"
    using assms resp by (auto simp: chat_stream_def Let_def split: if_splits)
  ultimately show ?thesis
    by (simp add: answer_matches_iff)
qed

lemma chat_fetch_stream_answer:
  assumes "chat_fetch_stream P fetch token b = (Inr r, evs)"
  shows "\<exists>ss. map (to_string P) (chunks_of evs) = map Inr ss \<and> answer r = concat ss"
proof -
  let ?req = "stream_request P token b"
  let ?init = "\<lparr> fullAnswer = [], citedChapters = [], log = [Fetched ?req] \<rparr>"
  obtain response where resp: "fetch ?req = Inr response"
    using assms by (cases "fetch ?req") (auto simp: chat_fetch_stream_def Let_def)
  obtain reads where reads: "f_body response = Some reads"
    using assms resp
    by (cases "f_body response") (auto simp: chat_fetch_stream_def Let_def split: if_splits)
  have "answer_matches P ?init"
    by (simp add: answer_matches_iff)
  moreover have "read_loop P ?init reads = (Inr r, evs)"
    using assms resp reads by (auto simp: chat_fetch_stream_def Let_def split: if_splits)
  ultimately show ?thesis
    by (rule read_loop_answer)
qed

lemma request_no_chunks: "chunks_of (snd (request P requestUrlFn token endpoint options)) = []"
  by (auto simp: request_def Let_def handle_response_def chunks_of_Cons
           split: sum.splits option.splits prod.splits)

lemma listBooks_no_chunks:
  "listBooks P requestUrlFn token = (r, evs) \<Longrightarrow> chunks_of evs = []"
  using request_no_chunks [of P requestUrlFn token "js ''/api/books''" no_options]
  by (simp add: listBooks_def)

lemma wrap_failure_streamed:
  assumes "wrap_failure evs0 (as_streamed s) = (Inr (Streamed r), evs)"
  shows "\<exists>evs1. s = (Inr r, evs1) \<and> evs = evs0 @ evs1"
  using assms
  by (cases s) (auto simp: wrap_failure_def as_streamed_def split: sum.splits)

lemma wrap_failure_parsed:
  "wrap_failure evs0 (as_parsed s) \<noteq> (Inr (Streamed r), evs)"
  by (cases s) (auto simp: wrap_failure_def as_parsed_def split: sum.splits)

text \<open>
  C5. When a streaming \<open>chat\<close> returns, every value it passed to \<open>onChunk\<close> has a
  string (a chunk that is a string is its own string), and the answer of the record it
  returns is the concatenation of these strings, in the order of the calls. Both
  revisions.
\<close>

theorem answer_is_concatenation_of_chunks:
  "(chat_requestUrl P requestUrlFn token bookId prompt contextIds True = (Inr (Streamed r), evs)
      \<longrightarrow> (\<exists>ss. map (to_string P) (chunks_of evs) = map Inr ss \<and> answer r = concat ss))
   \<and> (chat_fetch P requestUrlFn fetch token bookId prompt contextIds True = (Inr (Streamed r'), evs')
      \<longrightarrow> (\<exists>ss. map (to_string P) (chunks_of evs') = map Inr ss \<and> answer r' = concat ss))"
proof (intro conjI impI)
  assume run: "chat_requestUrl P requestUrlFn token bookId prompt contextIds True = (Inr (Streamed r), evs)"
  obtain books evs0 where books: "listBooks P requestUrlFn token = (Inr books, evs0)"
    using run
    by (cases "listBooks P requestUrlFn token")
       (auto simp: chat_requestUrl_def split: if_splits sum.splits)
  obtain book where "find_in_books books bookId = Inr (Some book)"
    using run books
    by (auto simp: chat_requestUrl_def split: if_splits sum.splits option.splits)
  with run books have "wrap_failure evs0
      (as_streamed (chat_stream P requestUrlFn token (chat_body bookId prompt contextIds)))
      = (Inr (Streamed r), evs)"
    by (auto simp: chat_requestUrl_def split: if_splits)
  then obtain evs1 where
    "chat_stream P requestUrlFn token (chat_body bookId prompt contextIds) = (Inr r, evs1)"
    and "evs = evs0 @ evs1"
    using wrap_failure_streamed by blast
  then show "\<exists>ss. map (to_string P) (chunks_of evs) = map Inr ss \<and> answer r = concat ss"
    using chat_stream_answer listBooks_no_chunks [OF books] by simp
next
  assume run: "chat_fetch P requestUrlFn fetch token bookId prompt contextIds True = (Inr (Streamed r'), evs')"
  obtain books evs0 where books: "listBooks P requestUrlFn token = (Inr books, evs0)"
    using run
    by (cases "listBooks P requestUrlFn token")
       (auto simp: chat_fetch_def split: if_splits sum.splits)
  obtain book where "find_in_books books bookId = Inr (Some book)"
    using run books
    by (auto simp: chat_fetch_def split: if_splits sum.splits option.splits)
  with run books have "wrap_failure evs0
      (as_streamed (chat_fetch_stream P fetch token (chat_body bookId prompt contextIds)))
      = (Inr (Streamed r'), evs')"
    by (auto simp: chat_fetch_def split: if_splits)
  then obtain evs1 where
    "chat_fetch_stream P fetch token (chat_body bookId prompt contextIds) = (Inr r', evs1)"
    and "evs' = evs0 @ evs1"
    using wrap_failure_streamed by blast
  then show "\<exists>ss. map (to_string P) (chunks_of evs') = map Inr ss \<and> answer r' = concat ss"
    using chat_fetch_stream_answer listBooks_no_chunks [OF books] by simp
qed

theorem answer_is_concatenation_of_chunks_witness:
  "chat_requestUrl sample_platform sample_executor (js ''key'') (js ''b1'') (js ''hello'') None True
     = (Inr (Streamed \<lparr> answer = js ''Hello'', cited_paragraph_ids = [], cited_chapters = [] \<rparr>),
        [Sent (requestOptions (js ''key'') (js ''/api/books'') no_options),
         Sent (stream_request sample_platform (js ''key'') (chat_body (js ''b1'') (js ''hello'') None)),
         OnChunk (JString (js ''Hel'')), OnChunk (JString (js ''lo''))])
   \<and> chat_fetch sample_platform sample_executor sample_fetch (js ''key'') (js ''b1'') (js ''hello'') None True
     = (Inr (Streamed \<lparr> answer = js ''Hello'', cited_paragraph_ids = [], cited_chapters = [] \<rparr>),
        [Sent (requestOptions (js ''key'') (js ''/api/books'') no_options),
         Fetched (stream_request sample_platform (js ''key'') (chat_body (js ''b1'') (js ''hello'') None)),
         OnChunk (JString (js ''Hel'')), OnChunk (JString (js ''lo''))])
   \<and> map (to_string sample_platform) [JString (js ''Hel''), JString (js ''lo'')]
       = map Inr [js ''Hel'', js ''lo'']
   \<and> js ''Hello'' = concat [js ''Hel'', js ''lo'']"
proof -
  let ?r = "\<lparr> answer = js ''Hello'', cited_paragraph_ids = [], cited_chapters = [] \<rparr>"
  let ?books = "Sent (requestOptions (js ''key'') (js ''/api/books'') no_options)"
  let ?post = "stream_request sample_platform (js ''key'') (chat_body (js ''b1'') (js ''hello'') None)"
  let ?chunks = "[OnChunk (JString (js ''Hel'')), OnChunk (JString (js ''lo''))]"
  have run1: "chat_requestUrl sample_platform sample_executor (js ''key'') (js ''b1'')
                (js ''hello'') None True = (Inr (Streamed ?r), ?books # Sent ?post # ?chunks)"
    by code_simp
  have run2: "chat_fetch sample_platform sample_executor sample_fetch (js ''key'') (js ''b1'')
                (js ''hello'') None True = (Inr (Streamed ?r), ?books # Fetched ?post # ?chunks)"
    by code_simp
  have chunks: "chunks_of (?books # Sent ?post # ?chunks) = [JString (js ''Hel''), JString (js ''lo'')]"
    by (simp add: chunks_of_Cons)
  have "\<exists>ss. map (to_string sample_platform) (chunks_of (?books # Sent ?post # ?chunks))
               = map Inr ss \<and> answer ?r = concat ss"
    using answer_is_concatenation_of_chunks
            [of sample_platform sample_executor "js ''key''" "js ''b1''" "js ''hello''" None
                ?r "?books # Sent ?post # ?chunks" sample_fetch ?r
                "?books # Fetched ?post # ?chunks"]
          run1
    by blast
  then obtain ss where
    strings: "map (to_string sample_platform) [JString (js ''Hel''), JString (js ''lo'')] = map Inr ss"
    and whole: "answer ?r = concat ss"
    unfolding chunks by blast
  from strings have ss: "ss = [js ''Hel'', js ''lo'']"
    by (auto simp: Cons_eq_map_conv)
  from whole have "js ''Hello'' = concat [js ''Hel'', js ''lo'']"
    unfolding ss by simp
  with strings have "map (to_string sample_platform) [JString (js ''Hel''), JString (js ''lo'')]
       = map Inr [js ''Hel'', js ''lo''] \<and> js ''Hello'' = concat [js ''Hel'', js ''lo'']"
    unfolding ss by blast
  with run1 run2 show ?thesis
    by blast
qed

text \<open>
  C3. A line whose payload is the end marker changes nothing: the decoder's state after
  the line is its state before it, so the callback is not called and the answer does not
  grow; and the decoding of a sequence of lines is the same with the line and without it.
  In the revision of \<open>part_001\<close> the payload is what follows \<open>data:\<close> in the trimmed line,
  trimmed; in \<open>BookriseClient.ts\<close> it is what follows \<open>data:\<close> and one space.
\<close>

theorem done_sentinel_emits_nothing:
  "(stream_payload rawLine = Some (js ''[DONE]'') \<longrightarrow>
      stream_line P st rawLine = st
      \<and> foldl (stream_line P) st (ls @ rawLine # ls') = foldl (stream_line P) st (ls @ ls'))
   \<and> (fetch_payload line = Some (js ''[DONE]'') \<longrightarrow>
      fetch_line P st line = st
      \<and> foldl (fetch_line P) st (ls @ line # ls') = foldl (fetch_line P) st (ls @ ls'))"
  by (simp add: stream_line_def fetch_line_def)

theorem done_sentinel_emits_nothing_witness:
  "stream_line sample_platform sample_state (js ''  data:  [DONE] '') = sample_state
   \<and> foldl (stream_line sample_platform) sample_state sample_stream =
       foldl (stream_line sample_platform) sample_state (butlast sample_stream)
   \<and> fetch_line sample_platform sample_state (js ''data: [DONE]'') = sample_state
   \<and> foldl (fetch_line sample_platform) sample_state sample_stream =
       foldl (fetch_line sample_platform) sample_state (butlast sample_stream)"
proof -
  have p1: "stream_payload (js ''  data:  [DONE] '') = Some (js ''[DONE]'')"
    by code_simp
  have p2: "stream_payload (js ''data: [DONE]'') = Some (js ''[DONE]'')"
    by code_simp
  have p3: "fetch_payload (js ''data: [DONE]'') = Some (js ''[DONE]'')"
    by code_simp
  have shape: "sample_stream = butlast sample_stream @ js ''data: [DONE]'' # []"
    by (simp add: sample_stream_def)
  have "stream_line sample_platform sample_state (js ''  data:  [DONE] '') = sample_state"
    using done_sentinel_emits_nothing [of "js ''  data:  [DONE] ''" sample_platform sample_state] p1
    by blast
  moreover have "foldl (stream_line sample_platform) sample_state
                   (butlast sample_stream @ js ''data: [DONE]'' # []) =
                 foldl (stream_line sample_platform) sample_state (butlast sample_stream @ [])"
    using done_sentinel_emits_nothing
            [of "js ''data: [DONE]''" sample_platform sample_state "butlast sample_stream" "[]"] p2
    by blast
  moreover have "fetch_line sample_platform sample_state (js ''data: [DONE]'') = sample_state
      \<and> foldl (fetch_line sample_platform) sample_state
            (butlast sample_stream @ js ''data: [DONE]'' # []) =
          foldl (fetch_line sample_platform) sample_state (butlast sample_stream @ [])"
    using done_sentinel_emits_nothing
            [where line = "js ''data: [DONE]''" and P = sample_platform and st = sample_state
               and ls = "butlast sample_stream" and ls' = "[]"] p3
    by blast
  ultimately show ?thesis
    using shape by simp
qed
















lemma find_book_absent:
  assumes "\<forall>b \<in> set bs. b \<noteq> JNull \<and> get_prop b (js ''id'') \<noteq> Inr (Some (JString bookId))"
  shows "find_book bs bookId = Inr None"
  using assms
proof (induction bs)
  case Nil
  show ?case by simp
next
  case (Cons b bs)
  then obtain v where "get_prop b (js ''id'') = Inr v" and "v \<noteq> Some (JString bookId)"
    by (cases b) auto
  with Cons show ?case by simp
qed

lemma request_requests:
  "requests_of (snd (request P requestUrlFn token endpoint options)) =
     [requestOptions token endpoint options]"
  by (auto simp: request_def Let_def handle_response_def requests_of_def
           split: sum.splits option.splits prod.splits)

text \<open>
  Two calls of \<open>chat\<close> with an id that no listed book has, which do not end in the error
  that the book was not found. With the empty id, the first test of \<open>chat\<close> rejects the
  arguments before the list is fetched. And when the remote answers the request for the
  books with status 200 and an empty body, \<open>request\<close> warns and returns \<open>null\<close>, and
  \<open>books.find\<close> on it is a TypeError (\<open>syncAllHighlights\<close> tests \<open>!books\<close> first;
  \<open>chat\<close> does not). Neither call posts anything.
\<close>

theorem chat_fails_before_the_lookup:
  "listBooks sample_platform sample_executor (js ''key'') =
     (Inr (JArray [JObject [(js ''id'', JString (js ''b1'')), (js ''title'', JString (js ''Dune''))]]),
      [Sent (requestOptions (js ''key'') (js ''/api/books'') no_options)])
   \<and> find_in_books
        (JArray [JObject [(js ''id'', JString (js ''b1'')), (js ''title'', JString (js ''Dune''))]]) []
      = Inr None
   \<and> chat_requestUrl sample_platform sample_executor (js ''key'') [] (js ''hello'') None True =
       (Inl ChatArgsRequired, [])
   \<and> chat_fetch sample_platform sample_executor sample_fetch (js ''key'') [] (js ''hello'') None True =
       (Inl ChatArgsRequired, [])
   \<and> listBooks sample_platform empty_body_executor (js ''key'') =
       (Inr JNull,
        [Sent (requestOptions (js ''key'') (js ''/api/books'') no_options),
         WarnEmptyResponse 200 (baseUrl @ js ''/api/books'')])
   \<and> chat_requestUrl sample_platform empty_body_executor (js ''key'') (js ''missing-id'')
         (js ''hello'') None True =
       (Inl TypeError,
        [Sent (requestOptions (js ''key'') (js ''/api/books'') no_options),
         WarnEmptyResponse 200 (baseUrl @ js ''/api/books'')])
   \<and> chat_fetch sample_platform empty_body_executor sample_fetch (js ''key'') (js ''missing-id'')
         (js ''hello'') None True =
       (Inl TypeError,
        [Sent (requestOptions (js ''key'') (js ''/api/books'') no_options),
         WarnEmptyResponse 200 (baseUrl @ js ''/api/books'')])"
proof -
  have listed: "listBooks sample_platform sample_executor (js ''key'') =
     (Inr (JArray [JObject [(js ''id'', JString (js ''b1'')), (js ''title'', JString (js ''Dune''))]]),
      [Sent (requestOptions (js ''key'') (js ''/api/books'') no_options)])"
    by (simp add: listBooks_def request_def handle_response_def sample_executor_def
          requestOptions_def no_options_def spread_def sample_platform_def sample_parse_def js_def)
  have absent: "find_in_books
        (JArray [JObject [(js ''id'', JString (js ''b1'')), (js ''title'', JString (js ''Dune''))]]) []
      = Inr None"
    by (simp add: find_in_books_def js_def)
  have rejected: "chat_requestUrl sample_platform sample_executor (js ''key'') [] (js ''hello'') None True =
       (Inl ChatArgsRequired, [])"
    "chat_fetch sample_platform sample_executor sample_fetch (js ''key'') [] (js ''hello'') None True =
       (Inl ChatArgsRequired, [])"
    by (simp_all add: chat_requestUrl_def chat_fetch_def)
  have no_listing: "listBooks sample_platform empty_body_executor (js ''key'') =
       (Inr JNull,
        [Sent (requestOptions (js ''key'') (js ''/api/books'') no_options),
         WarnEmptyResponse 200 (baseUrl @ js ''/api/books'')])"
    by (simp add: listBooks_def request_def handle_response_def empty_body_executor_def
          requestOptions_def)
  have "js ''missing-id'' \<noteq> [] \<and> js ''hello'' \<noteq> []"
    by (simp add: js_def)
  then have thrown: "chat_requestUrl sample_platform empty_body_executor (js ''key'') (js ''missing-id'')
         (js ''hello'') None True =
       (Inl TypeError,
        [Sent (requestOptions (js ''key'') (js ''/api/books'') no_options),
         WarnEmptyResponse 200 (baseUrl @ js ''/api/books'')])"
    "chat_fetch sample_platform empty_body_executor sample_fetch (js ''key'') (js ''missing-id'')
         (js ''hello'') None True =
       (Inl TypeError,
        [Sent (requestOptions (js ''key'') (js ''/api/books'') no_options),
         WarnEmptyResponse 200 (baseUrl @ js ''/api/books'')])"
    by (simp_all add: chat_requestUrl_def chat_fetch_def find_in_books_def listBooks_def
          request_def handle_response_def empty_body_executor_def requestOptions_def)
  from listed absent rejected no_listing thrown show ?thesis
    by blast
qed

text \<open>
  C7, as the code has it. With a book id and a prompt that are not empty, when
  \<open>listBooks\<close> returned an array of books (no element \<open>null\<close>) none of which has the id:
  \<open>chat\<close> fails with the error that the book was not found, and all it did is what
  \<open>listBooks\<close> did, which is to send the one GET for the books; nothing was posted,
  streaming or not. Both revisions.
\<close>

theorem chat_unknown_book:
  assumes "bookId \<noteq> []" and "prompt \<noteq> []"
    and "listBooks P requestUrlFn token = (Inr (JArray bs), evs)"
    and "\<forall>b \<in> set bs. b \<noteq> JNull \<and> get_prop b (js ''id'') \<noteq> Inr (Some (JString bookId))"
  shows "chat_requestUrl P requestUrlFn token bookId prompt contextIds onChunk =
           (Inl (BookNotFound bookId), evs)
       \<and> chat_fetch P requestUrlFn fetch token bookId prompt contextIds onChunk =
           (Inl (BookNotFound bookId), evs)
       \<and> requests_of evs = [requestOptions token (js ''/api/books'') no_options]
       \<and> q_method (requestOptions token (js ''/api/books'') no_options) = js ''GET''"
proof -
  have "find_in_books (JArray bs) bookId = Inr None"
    using find_book_absent [OF assms(4)] by (simp add: find_in_books_def)
  then have "chat_requestUrl P requestUrlFn token bookId prompt contextIds onChunk =
               (Inl (BookNotFound bookId), evs)"
    and "chat_fetch P requestUrlFn fetch token bookId prompt contextIds onChunk =
               (Inl (BookNotFound bookId), evs)"
    using assms(1-3) by (simp_all add: chat_requestUrl_def chat_fetch_def)
  moreover have "requests_of evs = [requestOptions token (js ''/api/books'') no_options]"
    using request_requests [of P requestUrlFn token "js ''/api/books''" no_options] assms(3)
    by (simp add: listBooks_def)
  moreover have "q_method (requestOptions token (js ''/api/books'') no_options) = js ''GET''"
    by (simp add: requestOptions_def no_options_def)
  ultimately show ?thesis
    by simp
qed

theorem chat_unknown_book_witness:
  "chat_requestUrl sample_platform sample_executor (js ''key'') (js ''missing-id'') (js ''hello'')
     None True =
     (Inl (BookNotFound (js ''missing-id'')),
      [Sent (requestOptions (js ''key'') (js ''/api/books'') no_options)])
   \<and> chat_fetch sample_platform sample_executor sample_fetch (js ''key'') (js ''missing-id'')
       (js ''hello'') None True =
     (Inl (BookNotFound (js ''missing-id'')),
      [Sent (requestOptions (js ''key'') (js ''/api/books'') no_options)])"
proof -
  let ?bs = "[JObject [(js ''id'', JString (js ''b1'')), (js ''title'', JString (js ''Dune''))]]"
  have a1: "js ''missing-id'' \<noteq> []" and a2: "js ''hello'' \<noteq> []"
    by (simp_all add: js_def)
  have a3: "listBooks sample_platform sample_executor (js ''key'') =
              (Inr (JArray ?bs), [Sent (requestOptions (js ''key'') (js ''/api/books'') no_options)])"
    by code_simp
  have a4: "\<forall>b \<in> set ?bs. b \<noteq> JNull
              \<and> get_prop b (js ''id'') \<noteq> Inr (Some (JString (js ''missing-id'')))"
    by (simp add: js_def)
  from chat_unknown_book
         [OF a1 a2 a3 a4, where fetch = sample_fetch and contextIds = None and onChunk = True]
  show ?thesis
    by blast
qed

lemma stream_lines_truthy:
  assumes "\<forall>c \<in> set (chunks_of (log st)). truthy c"
  shows "\<forall>c \<in> set (chunks_of (log (foldl (stream_line P) st ls))). truthy c"
  using assms
proof (induction ls arbitrary: st)
  case Nil
  then show ?case by simp
next
  case (Cons l ls)
  obtain cs where "\<forall>c \<in> set cs. truthy c" and "adds P st (stream_line P st l) cs"
    using stream_line_adds [of P st l] by blast
  with Cons.prems have "\<forall>c \<in> set (chunks_of (log (stream_line P st l))). truthy c"
    by (auto simp: adds_iff)
  then show ?case
    using Cons.IH by simp
qed

text \<open>
  In the revision of \<open>part_001\<close> every value the streaming block passes to the callback
  is truthy, so a string among them is not empty: \<open>emitChunk\<close> drops the others.
\<close>

lemma chat_stream_chunks_truthy:
  assumes "chat_stream P requestUrlFn token b = (r, evs)" and "c \<in> set (chunks_of evs)"
  shows "truthy c"
proof -
  let ?req = "stream_request P token b"
  let ?init = "\<lparr> fullAnswer = [], citedChapters = [], log = [Sent ?req] \<rparr>"
  have "evs = [Sent ?req] \<or> (\<exists>ls. evs = log (foldl (stream_line P) ?init ls))"
    using assms(1)
    by (cases "requestUrlFn ?req") (auto simp: chat_stream_def Let_def split: if_splits)
  moreover have "\<forall>c \<in> set (chunks_of (log (foldl (stream_line P) ?init ls))). truthy c" for ls
    by (rule stream_lines_truthy) simp
  ultimately show ?thesis
    using assms(2) by auto
qed

text \<open>
  C9, at the input that breaks it. A stream whose one line is \<open>data: ""\<close> carries the
  empty string as its payload. The revision of \<open>BookriseClient.ts\<close> calls the callback
  with that empty string: its branch for a bare string appends and calls without a test.
  The revision of \<open>part_001\<close>, given the same line, calls nothing.
\<close>

theorem fetch_revision_delivers_empty_chunk:
  "chunks_of (snd (chat_fetch sample_platform sample_executor empty_string_fetch (js ''key'')
                     (js ''b1'') (js ''hello'') None True)) = [JString []]
   \<and> chunks_of (snd (chat_requestUrl sample_platform empty_string_executor (js ''key'')
                     (js ''b1'') (js ''hello'') None True)) = []"
  by code_simp


section \<open>Properties of the synchronizer\<close>


lemma writes_of_simps [simp]:
  "writes_of [] = []"
  "writes_of (a @ b) = writes_of a @ writes_of b"
  "writes_of [CreateFolder p] = []"
  "writes_of [CreateFile p c] = [(p, c)]"
  "writes_of [ModifyFile p c] = [(p, c)]"
  "writes_of [Notice n] = []"
  "writes_of [LogError e] = []"
  "writes_of [Notice n, LogError e] = []"
  by (simp_all add: writes_of_def)

lemma wrote_refl: "wrote w w []"
  by (simp add: wrote_def)

lemma wrote_trans: "wrote w w' xs \<Longrightarrow> wrote w' w'' ys \<Longrightarrow> wrote w w'' (xs @ ys)"
  by (auto simp: wrote_def)

lemma emit_simps [simp]:
  "trace (emit ev w) = trace w @ [ev]"
  "vault (emit ev w) = vault w"
  by (simp_all add: emit_def)

lemma fits_vault: "vault w1 = vault w \<Longrightarrow> fits w1 x = fits w x"
  by (cases x) simp_all

lemma ensureFolderExists_ok:
  assumes "ensureFolderExists p w = (Inr u, w')"
  shows "fits w' (EnsureFolder p)" and "wrote w w' []"
    and "vault w q = Some e \<Longrightarrow> vault w' q = Some e"
    and "vault w' = vault w \<or> (vault w p = None \<and> vault w' = (vault w)(p \<mapsto> TFolder))"
proof -
  consider (none) "vault w p = None" | (folder) "vault w p = Some TFolder"
    | (regular) c where "vault w p = Some (TFile c)"
    by (cases "vault w p") (auto intro: entry.exhaust)
  then have "fits w' (EnsureFolder p) \<and> wrote w w' []
      \<and> (vault w q = Some e \<longrightarrow> vault w' q = Some e)
      \<and> (vault w' = vault w \<or> (vault w p = None \<and> vault w' = (vault w)(p \<mapsto> TFolder)))"
  proof cases
    case none
    with assms have "w' = emit (CreateFolder p) (w\<lparr> vault := (vault w)(p \<mapsto> TFolder) \<rparr>)"
      by (simp add: ensureFolderExists_def vault_createFolder_def)
    with none show ?thesis
      by (auto simp: wrote_def)
  next
    case folder
    with assms have "w' = w"
      by (simp add: ensureFolderExists_def)
    with folder show ?thesis
      by (simp add: wrote_refl)
  next
    case regular
    with assms have "says_folder_exists (NotAFolder p)"
      and "w' = emit (LogError (NotAFolder p))
                  (emit (Notice (js ''Error: '' @ not_a_folder_message p)) w)"
      by (auto simp: ensureFolderExists_def split: if_splits)
    with regular show ?thesis
      by (simp add: wrote_def)
  qed
  then show "fits w' (EnsureFolder p)" and "wrote w w' []"
    and "vault w q = Some e \<Longrightarrow> vault w' q = Some e"
    and "vault w' = vault w \<or> (vault w p = None \<and> vault w' = (vault w)(p \<mapsto> TFolder))"
    by simp_all
qed

lemma ensureFolderExists_on_fitting:
  assumes "fits w (EnsureFolder p)"
  shows "\<exists>w1. ensureFolderExists p w = (Inr (), w1) \<and> vault w1 = vault w \<and> wrote w w1 []"
proof (cases "vault w p")
  case None
  with assms show ?thesis by simp
next
  case (Some e)
  show ?thesis
  proof (cases e)
    case TFolder
    with Some show ?thesis
      by (simp add: ensureFolderExists_def wrote_refl)
  next
    case (TFile c)
    with Some assms show ?thesis
      by (simp add: ensureFolderExists_def wrote_def)
  qed
qed

lemma createOrUpdateFile_ok:
  assumes "createOrUpdateFile p c w = (Inr u, w')"
  shows "vault w' = (vault w)(p \<mapsto> TFile c)" and "wrote w w' [(p, c)]"
    and "vault w p \<noteq> Some TFolder"
  using assms
  by (auto simp: createOrUpdateFile_def vault_create_def vault_modify_def wrote_def
           split: option.splits entry.splits if_splits)

lemma createOrUpdateFile_succeeds:
  assumes "vault w p \<noteq> Some TFolder"
  shows "\<exists>w1. createOrUpdateFile p c w = (Inr (), w1) \<and> vault w1 = (vault w)(p \<mapsto> TFile c)"
proof (cases "vault w p")
  case None
  then show ?thesis
    by (simp add: createOrUpdateFile_def vault_create_def)
next
  case (Some e)
  with assms obtain old where "vault w p = Some (TFile old)"
    by (cases e) auto
  then show ?thesis
    by (simp add: createOrUpdateFile_def vault_modify_def)
qed

lemma ensureFolderExists_succeeds:
  assumes "vault w p = None \<or> vault w p = Some TFolder"
  shows "\<exists>w1. ensureFolderExists p w = (Inr (), w1)
              \<and> (vault w1 = vault w \<or> vault w1 = (vault w)(p \<mapsto> TFolder))
              \<and> vault w1 p = Some TFolder"
  using assms
  by (auto simp: ensureFolderExists_def vault_createFolder_def)

lemma ensureFolderExists_on_folder:
  assumes "vault w p = Some TFolder"
  shows "ensureFolderExists p w = (Inr (), w)"
  using assms by (simp add: ensureFolderExists_def)

lemma and_then_simps [simp]:
  "and_then (Inr x, w) f = f x w"
  "and_then (Inl e, w) f = (Inl e, w)"
  by (simp_all add: and_then_def)

lemma and_then_ok:
  "and_then r f = (Inr y, w') \<longleftrightarrow> (\<exists>x w1. r = (Inr x, w1) \<and> f x w1 = (Inr y, w'))"
  by (cases r) (auto simp: and_then_def split: sum.splits)

lemma run_plan_Cons_ok:
  "run_plan (x # xs) w = (Inr u, w') \<longleftrightarrow>
     (\<exists>w1. run_op x w = (Inr (), w1) \<and> run_plan xs w1 = (Inr u, w'))"
  by (simp add: and_then_ok)

lemma run_plan_ConsE:
  assumes "run_plan (x # xs) w = (Inr u, w')"
  obtains w1 where "run_op x w = (Inr (), w1)" and "run_plan xs w1 = (Inr u, w')"
  using assms by (auto simp: and_then_ok)

lemma run_op_fits:
  assumes "run_op x w = (Inr u, w1)"
  shows "fits w1 x"
proof (cases x)
  case (EnsureFolder p)
  with assms show ?thesis
    using ensureFolderExists_ok(1) [of p w u w1] by simp
next
  case (WriteFile p c)
  with assms show ?thesis
    using createOrUpdateFile_ok(1) [of p c w u w1] by simp
qed

lemma run_op_fits_mono:
  assumes "run_op x w = (Inr u, w1)" and "fits w y"
  shows "fits w1 y"
proof (cases x)
  case (EnsureFolder p)
  with assms(1) have keep: "vault w q = Some e \<Longrightarrow> vault w1 q = Some e" for q e
    using ensureFolderExists_ok(3) [of p w u w1] by simp
  show ?thesis
  proof (cases y)
    case target: (EnsureFolder q)
    with assms(2) obtain e where "vault w q = Some e"
      by (cases "vault w q") auto
    with keep [of q e] assms(2) target show ?thesis
      by simp
  next
    case target: (WriteFile q c)
    with assms(2) obtain e where "vault w q = Some e"
      by (cases "vault w q") auto
    with keep [of q e] assms(2) target show ?thesis
      by simp
  qed
next
  case (WriteFile p c)
  with assms(1) have v: "vault w1 = (vault w)(p \<mapsto> TFile c)" and nf: "vault w p \<noteq> Some TFolder"
    using createOrUpdateFile_ok [of p c w u w1] by simp_all
  show ?thesis
  proof (cases y)
    case target: (EnsureFolder q)
    show ?thesis
    proof (cases "q = p")
      case True
      with assms(2) nf target v show ?thesis
        by (cases "vault w p") (auto split: entry.splits)
    next
      case False
      with assms(2) target v show ?thesis
        by simp
    qed
  next
    case target: (WriteFile q c')
    with assms(2) v show ?thesis
      by (cases "q = p") simp_all
  qed
qed

lemma run_plan_fits_mono:
  "run_plan xs w = (Inr u, w1) \<Longrightarrow> fits w y \<Longrightarrow> fits w1 y"
proof (induction xs arbitrary: w)
  case Nil
  then show ?case by simp
next
  case (Cons x xs)
  from Cons.prems(1) obtain w' where "run_op x w = (Inr (), w')" and "run_plan xs w' = (Inr u, w1)"
    by (rule run_plan_ConsE)
  with Cons show ?case
    using run_op_fits_mono by blast
qed

lemma run_plan_fits:
  "run_plan xs w = (Inr u, w1) \<Longrightarrow> x \<in> set xs \<Longrightarrow> fits w1 x"
proof (induction xs arbitrary: w)
  case Nil
  then show ?case by simp
next
  case (Cons y ys)
  from Cons.prems(1) obtain w' where step: "run_op y w = (Inr (), w')"
    and rest: "run_plan ys w' = (Inr u, w1)"
    by (rule run_plan_ConsE)
  show ?case
  proof (cases "x = y")
    case True
    then show ?thesis
      using run_op_fits [OF step] run_plan_fits_mono [OF rest] by simp
  next
    case False
    with Cons.prems(2) have "x \<in> set ys" by simp
    then show ?thesis
      using Cons.IH [OF rest] by simp
  qed
qed

lemma run_plan_wrote:
  "run_plan xs w = (Inr u, w1) \<Longrightarrow> wrote w w1 (plan_writes xs)"
proof (induction xs arbitrary: w)
  case Nil
  then show ?case by (simp add: wrote_refl)
next
  case (Cons x xs)
  from Cons.prems(1) obtain w' where step: "run_op x w = (Inr (), w')"
    and rest: "run_plan xs w' = (Inr u, w1)"
    by (rule run_plan_ConsE)
  have tail: "wrote w' w1 (plan_writes xs)"
    using Cons.IH [OF rest] .
  show ?case
  proof (cases x)
    case (EnsureFolder p)
    with step have "wrote w w' []"
      using ensureFolderExists_ok(2) [of p w "()" w'] by simp
    from wrote_trans [OF this tail] EnsureFolder show ?thesis by simp
  next
    case (WriteFile p c)
    with step have "wrote w w' [(p, c)]"
      using createOrUpdateFile_ok(2) [of p c w "()" w'] by simp
    from wrote_trans [OF this tail] WriteFile show ?thesis by simp
  qed
qed

lemma run_plan_keeps:
  "run_plan xs w = (Inr u, w1) \<Longrightarrow> p \<notin> fst ` set (plan_writes xs) \<Longrightarrow> vault w p = Some e
     \<Longrightarrow> vault w1 p = Some e"
proof (induction xs arbitrary: w)
  case Nil
  then show ?case by simp
next
  case (Cons x xs)
  from Cons.prems(1) obtain w' where step: "run_op x w = (Inr (), w')"
    and rest: "run_plan xs w' = (Inr u, w1)"
    by (rule run_plan_ConsE)
  show ?case
  proof (cases x)
    case (EnsureFolder q)
    with step Cons.prems(3) have "vault w' p = Some e"
      using ensureFolderExists_ok(3) [of q w "()" w' p e] by simp
    with Cons.IH [OF rest] Cons.prems(2) EnsureFolder show ?thesis by simp
  next
    case (WriteFile q c)
    with Cons.prems(2) have "p \<noteq> q" and "p \<notin> fst ` set (plan_writes xs)"
      by auto
    moreover from WriteFile step have "vault w' = (vault w)(q \<mapsto> TFile c)"
      using createOrUpdateFile_ok(1) [of q c w "()" w'] by simp
    ultimately show ?thesis
      using Cons.IH [OF rest] Cons.prems(3) by simp
  qed
qed

lemma put_pair: "put v (p, c) = v(p \<mapsto> TFile c)"
  by (simp add: put_def)

lemma put_same: "put (v(p \<mapsto> x)) (p, c) = put v (p, c)"
  by (simp add: put_def)

lemma put_other: "q \<noteq> p \<Longrightarrow> put (v(p \<mapsto> x)) (q, c) = (put v (q, c))(p \<mapsto> x)"
  by (simp add: put_def fun_upd_twist)

lemma foldl_put_upd:
  "foldl put (v(p \<mapsto> x)) ws =
     (if p \<in> fst ` set ws then foldl put v ws else (foldl put v ws)(p \<mapsto> x))"
proof (induction ws arbitrary: v)
  case Nil
  show ?case by simp
next
  case (Cons a ws)
  obtain q c where a_def: "a = (q, c)"
    by (cases a)
  have "foldl put (v(p \<mapsto> x)) ((q, c) # ws) =
     (if p \<in> fst ` set ((q, c) # ws) then foldl put v ((q, c) # ws)
      else (foldl put v ((q, c) # ws))(p \<mapsto> x))"
  proof (cases "q = p")
    case same: True
    have "foldl put (v(p \<mapsto> x)) ((p, c) # ws) = foldl put (put v (p, c)) ws"
      by (simp only: foldl_Cons put_same)
    moreover have "p \<in> fst ` set ((p, c) # ws)"
      by simp
    moreover have "foldl put v ((p, c) # ws) = foldl put (put v (p, c)) ws"
      by simp
    ultimately show ?thesis
      by (simp only: same if_True)
  next
    case other: False
    have "foldl put (v(p \<mapsto> x)) ((q, c) # ws) = foldl put ((put v (q, c))(p \<mapsto> x)) ws"
      by (simp only: foldl_Cons put_other [OF other])
    also have "\<dots> = (if p \<in> fst ` set ws then foldl put (put v (q, c)) ws
                      else (foldl put (put v (q, c)) ws)(p \<mapsto> x))"
      by (rule Cons.IH)
    also have "\<dots> = (if p \<in> fst ` set ((q, c) # ws) then foldl put v ((q, c) # ws)
                      else (foldl put v ((q, c) # ws))(p \<mapsto> x))"
    proof -
      have "p \<in> fst ` set ((q, c) # ws) \<longleftrightarrow> p \<in> fst ` set ws"
        using other by auto
      then show ?thesis
        by (simp only: foldl_Cons)
    qed
    finally show ?thesis .
  qed
  then show ?case
    by (simp only: a_def)
qed

lemma run_plan_fixpoint:
  "run_plan xs w = (Inr u, w1) \<Longrightarrow> foldl put (vault w1) (plan_writes xs) = vault w1"
proof (induction xs arbitrary: w)
  case Nil
  then show ?case by simp
next
  case (Cons x xs)
  from Cons.prems(1) obtain w' where step: "run_op x w = (Inr (), w')"
    and rest: "run_plan xs w' = (Inr u, w1)"
    by (rule run_plan_ConsE)
  note IH = Cons.IH [OF rest]
  show ?case
  proof (cases x)
    case (EnsureFolder q)
    with IH show ?thesis by simp
  next
    case (WriteFile q c)
    with step have here: "vault w' q = Some (TFile c)"
      using createOrUpdateFile_ok(1) [of q c w "()" w'] by simp
    show ?thesis
    proof (cases "q \<in> fst ` set (plan_writes xs)")
      case True
      with IH WriteFile show ?thesis
        by (simp add: put_pair foldl_put_upd)
    next
      case False
      then have "vault w1 q = Some (TFile c)"
        using run_plan_keeps [OF rest _ here] by simp
      then have "(vault w1)(q \<mapsto> TFile c) = vault w1"
        by (simp add: fun_upd_idem)
      with False IH WriteFile show ?thesis
        by (simp add: put_pair foldl_put_upd)
    qed
  qed
qed

lemma run_plan_on_fitting:
  "\<forall>x \<in> set xs. fits w x \<Longrightarrow>
     \<exists>w2. run_plan xs w = (Inr (), w2) \<and> vault w2 = foldl put (vault w) (plan_writes xs)
          \<and> wrote w w2 (plan_writes xs)"
proof (induction xs arbitrary: w)
  case Nil
  show ?case by (simp add: wrote_refl)
next
  case (Cons x xs)
  show ?case
  proof (cases x)
    case (EnsureFolder p)
    with Cons.prems obtain w1 where step: "run_op x w = (Inr (), w1)"
      and same: "vault w1 = vault w" and none: "wrote w w1 []"
      using ensureFolderExists_on_fitting [of w p] by auto
    have "\<forall>y \<in> set xs. fits w1 y"
      using Cons.prems fits_vault [OF same] by simp
    from Cons.IH [OF this] obtain w2 where rest: "run_plan xs w1 = (Inr (), w2)"
      and v2: "vault w2 = foldl put (vault w1) (plan_writes xs)"
      and wr: "wrote w1 w2 (plan_writes xs)"
      by blast
    have "run_plan (x # xs) w = (Inr (), w2)"
      using step rest by simp
    moreover have "vault w2 = foldl put (vault w) (plan_writes (x # xs))"
      using v2 same EnsureFolder by simp
    moreover have "wrote w w2 (plan_writes (x # xs))"
      using wrote_trans [OF none wr] EnsureFolder by simp
    ultimately show ?thesis
      by blast
  next
    case (WriteFile p c)
    from Cons.prems WriteFile obtain old where "vault w p = Some (TFile old)"
      by (auto split: option.splits entry.splits)
    then have "vault w p \<noteq> Some TFolder"
      by simp
    then obtain w1 where step: "createOrUpdateFile p c w = (Inr (), w1)"
      and v1: "vault w1 = (vault w)(p \<mapsto> TFile c)"
      using createOrUpdateFile_succeeds by blast
    then have step': "run_op x w = (Inr (), w1)"
      using WriteFile by simp
    have one: "wrote w w1 [(p, c)]"
      using createOrUpdateFile_ok(2) [OF step] .
    have "\<forall>y \<in> set xs. fits w1 y"
      using Cons.prems run_op_fits_mono [OF step'] by simp
    from Cons.IH [OF this] obtain w2 where rest: "run_plan xs w1 = (Inr (), w2)"
      and v2: "vault w2 = foldl put (vault w1) (plan_writes xs)"
      and wr: "wrote w1 w2 (plan_writes xs)"
      by blast
    have "run_plan (x # xs) w = (Inr (), w2)"
      using step' rest by simp
    moreover have "vault w2 = foldl put (vault w) (plan_writes (x # xs))"
      using v2 v1 WriteFile by (simp add: put_pair del: fun_upd_apply)
    moreover have "wrote w w2 (plan_writes (x # xs))"
      using wrote_trans [OF one wr] WriteFile by simp
    ultimately show ?thesis
      by blast
  qed
qed

text \<open>Running a list of helper calls again, on the world the first run left.\<close>

lemma run_plan_again:
  assumes "run_plan xs w = (Inr u, w1)"
  shows "\<exists>w2. run_plan xs w1 = (Inr (), w2) \<and> vault w2 = vault w1
              \<and> wrote w w1 (plan_writes xs) \<and> wrote w1 w2 (plan_writes xs)"
proof -
  have "\<forall>x \<in> set xs. fits w1 x"
    using run_plan_fits [OF assms] by blast
  then obtain w2 where "run_plan xs w1 = (Inr (), w2)"
    and "vault w2 = foldl put (vault w1) (plan_writes xs)" and "wrote w1 w2 (plan_writes xs)"
    using run_plan_on_fitting by blast
  then show ?thesis
    using run_plan_fixpoint [OF assms] run_plan_wrote [OF assms] by auto
qed

lemma and_then_assoc:
  "and_then (and_then r f) g = and_then r (\<lambda>x w. and_then (f x w) g)"
  by (cases r) (auto simp: and_then_def split: sum.splits)

lemma and_then_unit: "and_then r (\<lambda>u w'. (Inr (), w')) = (r :: unit sync)"
  by (cases r) (auto simp: and_then_def split: sum.splits)

lemma run_plan_Nil_fun: "run_plan [] = (\<lambda>w. (Inr (), w))"
  by (rule ext) simp

lemma run_plan_append_fun:
  "run_plan (xs @ ys) = (\<lambda>w. and_then (run_plan xs w) (\<lambda>u w'. run_plan ys w'))"
proof (induction xs)
  case Nil
  show ?case by (rule ext) simp
next
  case (Cons x xs)
  show ?case
    by (rule ext) (simp add: and_then_assoc Cons.IH)
qed

lemma run_plan_append:
  "run_plan (xs @ ys) w = and_then (run_plan xs w) (\<lambda>u w'. run_plan ys w')"
  by (simp add: run_plan_append_fun)

lemma write_notes_plan_fun:
  "write_notes P settings book hls =
     (\<lambda>links w. and_then
       (run_plan (map (\<lambda>hl. WriteFile (noteFilePath settings book hl) (noteContent P book hl)) hls) w)
       (\<lambda>u w'. (Inr (links @ map highlightLink hls), w')))"
proof (induction hls)
  case Nil
  show ?case by (rule ext, rule ext) simp
next
  case (Cons hl hls)
  show ?case
    by (rule ext, rule ext) (simp add: and_then_assoc Cons.IH)
qed

lemma write_notes_plan:
  "write_notes P settings book hls links w =
     and_then
       (run_plan (map (\<lambda>hl. WriteFile (noteFilePath settings book hl) (noteContent P book hl)) hls) w)
       (\<lambda>u w'. (Inr (links @ map highlightLink hls), w'))"
  by (simp add: write_notes_plan_fun)

text \<open>The sync of a book runs the list \<open>book_plan\<close> of helper calls.\<close>

lemma run_plan_single_fun: "run_plan [WriteFile p c] = createOrUpdateFile p c"
  by (rule ext) (simp add: and_then_unit run_plan_Nil_fun)

lemma run_plan_Cons_fun:
  "run_plan (x # xs) = (\<lambda>w. and_then (run_op x w) (\<lambda>u w'. run_plan xs w'))"
  by (rule ext) simp

lemma write_notes_then_index:
  "and_then (write_notes P settings book hls [] w2)
     (\<lambda>highlightLinks w3.
        createOrUpdateFile (mainBookFilePath settings book)
          (mainBookHeader P book @ index_intro @ join [NL] highlightLinks @ [NL]) w3) =
   run_plan
     (map (\<lambda>hl. WriteFile (noteFilePath settings book hl) (noteContent P book hl)) hls
      @ [WriteFile (mainBookFilePath settings book)
           (mainBookHeader P book @ index_intro @ join [NL] (map highlightLink hls) @ [NL])]) w2"
  by (simp add: write_notes_plan run_plan_append and_then_assoc run_plan_single_fun
           del: run_plan.simps)

lemma syncBookHighlights_plan:
  assumes "client_listHighlights c (b_id book) = Inr highlights"
  shows "syncBookHighlights P settings (Some c) random36 book w =
           run_plan (book_plan P settings random36 book highlights) w"
proof (cases "highlights = None \<or> highlights = Some []")
  case True
  then show ?thesis
    using assms
    by (simp add: syncBookHighlights_def book_plan_def run_plan_Cons_fun run_plan_Nil_fun
             and_then_unit del: run_plan.simps)
next
  case False
  then obtain hls where some: "highlights = Some hls" and more: "hls \<noteq> []"
    by (cases highlights) auto
  show ?thesis
  proof (cases "createNotePerHighlight settings")
    case True
    with more show ?thesis
      using assms
      by (simp add: syncBookHighlights_def book_plan_def some write_notes_then_index
               run_plan_Cons_fun [of "EnsureFolder p" for p] del: run_plan.simps)
  next
    case per_book: False
    with more show ?thesis
      using assms
      by (simp add: syncBookHighlights_def book_plan_def run_plan_Cons_fun run_plan_Nil_fun
               and_then_unit some del: run_plan.simps)
  qed
qed

lemma list_item_needs_no_random:
  "h_id hl \<noteq> [] \<Longrightarrow>
     formatSingleHighlightAsListItem P r hl = formatSingleHighlightAsListItem P r' hl"
  by (simp add: formatSingleHighlightAsListItem_def)

lemma listItems_need_no_random:
  assumes "\<forall>h \<in> set hls. h_id h \<noteq> []"
  shows "listItems P r hls = listItems P r' hls"
proof -
  have "(case x of (i, hl) \<Rightarrow> formatSingleHighlightAsListItem P (r i) hl) =
        (case x of (i, hl) \<Rightarrow> formatSingleHighlightAsListItem P (r' i) hl)"
    if "x \<in> set (zip [0 ..< length hls] hls)" for x
  proof -
    obtain i hl where x: "x = (i, hl)"
      by (cases x)
    with that have "hl \<in> set hls"
      by (auto dest: set_zip_rightD)
    with assms x show ?thesis
      using list_item_needs_no_random [of hl P "r i" "r' i"] by simp
  qed
  then show ?thesis
    unfolding listItems_def by (metis (no_types, lifting) map_cong)
qed

lemma book_plan_needs_no_random:
  assumes "\<forall>h \<in> set hls. h_id h \<noteq> []"
  shows "book_plan P settings r book (Some hls) = book_plan P settings r' book (Some hls)"
  using listItems_need_no_random [OF assms, of P r r'] by (simp add: book_plan_def)

text \<open>
  C1. With the mode and the remote list of highlights unchanged, and every highlight
  with an id that is not empty: when the sync of a book has run without error, a second
  run on the vault it left also runs without error, writes the same files with the same
  content in the same order, and leaves every path of the vault as it was. The two runs
  may draw different random numbers: none is read.
\<close>

theorem syncBookHighlights_twice:
  assumes "client_listHighlights c (b_id book) = Inr (Some hls)"
    and "\<forall>h \<in> set hls. h_id h \<noteq> []"
    and "syncBookHighlights P settings (Some c) random36 book w = (Inr (), w1)"
  shows "\<exists>w2 ws. syncBookHighlights P settings (Some c) random36' book w1 = (Inr (), w2)
           \<and> vault w2 = vault w1 \<and> wrote w w1 ws \<and> wrote w1 w2 ws"
proof -
  let ?plan = "book_plan P settings random36 book (Some hls)"
  have first: "run_plan ?plan w = (Inr (), w1)"
    using assms(3) syncBookHighlights_plan [OF assms(1)] by simp
  have "syncBookHighlights P settings (Some c) random36' book w1 = run_plan ?plan w1"
    using syncBookHighlights_plan [OF assms(1), of P settings random36' w1]
      book_plan_needs_no_random [OF assms(2), of P settings random36' book random36]
    by simp
  then show ?thesis
    using run_plan_again [OF first] by auto
qed


lemma listItems_two:
  "listItems P r [h1, h2] =
     formatSingleHighlightAsListItem P (r 0) h1 @ formatSingleHighlightAsListItem P (r 1) h2"
proof -
  have "[0 ..< length [h1, h2]] = [0, 1]"
    by (simp add: upt_rec)
  then show ?thesis
    by (simp add: listItems_def)
qed

text \<open>
  What the sync of a book with the two highlights \<open>h1\<close>, \<open>h2\<close> writes when it runs
  without error. With one file for a book: the one note, its two list items in the order
  of the list. With a note for each highlight: a note for \<open>h1\<close>, a note for \<open>h2\<close>, both at
  their \<open>noteFilePath\<close> (the folder \<open>_Highlights\<close> of the book's folder, a slash, the
  note's name), then the main note with a link line for each; when the three paths differ,
  these are three files of the vault, and when the two notes have one path, its file
  holds the second.
\<close>

lemma two_highlights:
  assumes "client_listHighlights c (b_id book) = Inr (Some [h1, h2])"
    and "syncBookHighlights P settings (Some c) random36 book w = (Inr (), w')"
  shows "(\<not> createNotePerHighlight settings \<longrightarrow>
            wrote w w'
              [(mainBookFilePath settings book,
                mainBookHeader P book @ js ''# Highlights for '' @ b_title book @ [NL, NL]
                @ formatSingleHighlightAsListItem P (random36 0) h1
                @ formatSingleHighlightAsListItem P (random36 1) h2)])
       \<and> (createNotePerHighlight settings \<longrightarrow>
            wrote w w'
              [(noteFilePath settings book h1, noteContent P book h1),
               (noteFilePath settings book h2, noteContent P book h2),
               (mainBookFilePath settings book,
                mainBookHeader P book @ index_intro
                @ highlightLink h1 @ [NL] @ highlightLink h2 @ [NL])]
            \<and> (distinct [noteFilePath settings book h1, noteFilePath settings book h2,
                          mainBookFilePath settings book] \<longrightarrow>
                 vault w' (noteFilePath settings book h1) = Some (TFile (noteContent P book h1))
                 \<and> vault w' (noteFilePath settings book h2) = Some (TFile (noteContent P book h2))
                 \<and> vault w' (mainBookFilePath settings book) =
                     Some (TFile (mainBookHeader P book @ index_intro
                                  @ highlightLink h1 @ [NL] @ highlightLink h2 @ [NL])))
            \<and> (noteFilePath settings book h1 = noteFilePath settings book h2
                 \<and> noteFilePath settings book h2 \<noteq> mainBookFilePath settings book \<longrightarrow>
                 vault w' (noteFilePath settings book h1) = Some (TFile (noteContent P book h2))))"
proof -
  let ?plan = "book_plan P settings random36 book (Some [h1, h2])"
  have ran: "run_plan ?plan w = (Inr (), w')"
    using assms syncBookHighlights_plan by simp
  note wrote = run_plan_wrote [OF ran]
  note fixed = run_plan_fixpoint [OF ran]
  show ?thesis
  proof (intro conjI impI)
    assume "\<not> createNotePerHighlight settings"
    then show "wrote w w'
              [(mainBookFilePath settings book,
                mainBookHeader P book @ js ''# Highlights for '' @ b_title book @ [NL, NL]
                @ formatSingleHighlightAsListItem P (random36 0) h1
                @ formatSingleHighlightAsListItem P (random36 1) h2)]"
      using wrote by (simp add: book_plan_def listItems_two)
  next
    assume "createNotePerHighlight settings"
    then show "wrote w w'
              [(noteFilePath settings book h1, noteContent P book h1),
               (noteFilePath settings book h2, noteContent P book h2),
               (mainBookFilePath settings book,
                mainBookHeader P book @ index_intro
                @ highlightLink h1 @ [NL] @ highlightLink h2 @ [NL])]"
      using wrote by (simp add: book_plan_def)
  next
    assume mode: "createNotePerHighlight settings"
      and "distinct [noteFilePath settings book h1, noteFilePath settings book h2,
                     mainBookFilePath settings book]"
    then have d: "noteFilePath settings book h1 \<noteq> noteFilePath settings book h2"
      "noteFilePath settings book h1 \<noteq> mainBookFilePath settings book"
      "noteFilePath settings book h2 \<noteq> mainBookFilePath settings book"
      by simp_all
    let ?n1 = "noteFilePath settings book h1" and ?c1 = "noteContent P book h1"
    let ?n2 = "noteFilePath settings book h2" and ?c2 = "noteContent P book h2"
    let ?m = "mainBookFilePath settings book"
    let ?cm = "mainBookHeader P book @ index_intro @ highlightLink h1 @ [NL] @ highlightLink h2 @ [NL]"
    have "vault w' = (vault w')(?n1 \<mapsto> TFile ?c1, ?n2 \<mapsto> TFile ?c2, ?m \<mapsto> TFile ?cm)"
      using fixed mode by (simp add: book_plan_def put_pair)
    then have at: "vault w' q = ((vault w')(?n1 \<mapsto> TFile ?c1, ?n2 \<mapsto> TFile ?c2, ?m \<mapsto> TFile ?cm)) q"
      for q
      by simp
    show "vault w' ?n1 = Some (TFile ?c1)"
      using at [of ?n1] d by simp
    show "vault w' ?n2 = Some (TFile ?c2)"
      using at [of ?n2] d by simp
    show "vault w' ?m = Some (TFile ?cm)"
      using at [of ?m] by simp
  next
    assume mode: "createNotePerHighlight settings"
      and same: "noteFilePath settings book h1 = noteFilePath settings book h2
                 \<and> noteFilePath settings book h2 \<noteq> mainBookFilePath settings book"
    let ?n2 = "noteFilePath settings book h2" and ?c2 = "noteContent P book h2"
    let ?m = "mainBookFilePath settings book"
    let ?cm = "mainBookHeader P book @ index_intro @ highlightLink h1 @ [NL] @ highlightLink h2 @ [NL]"
    have "vault w' = (vault w')(?n2 \<mapsto> TFile ?c2, ?m \<mapsto> TFile ?cm)"
      using fixed mode same by (simp add: book_plan_def put_pair)
    then have "vault w' ?n2 = ((vault w')(?n2 \<mapsto> TFile ?c2, ?m \<mapsto> TFile ?cm)) ?n2"
      by simp
    then show "vault w' (noteFilePath settings book h1) = Some (TFile ?c2)"
      using same by simp
  qed
qed


lemma sync_books_counts:
  "sync_books P settings client r i books (s, e) w = ((s', e'), w')
     \<Longrightarrow> s' + e' = s + e + length books \<and> s \<le> s' \<and> e \<le> e'"
proof (induction books arbitrary: i s e w)
  case Nil
  then show ?case by simp
next
  case (Cons book books)
  obtain res w1 where step: "syncBookHighlights P settings client (r i) book w = (res, w1)"
    by (cases "syncBookHighlights P settings client (r i) book w")
  show ?case
  proof (cases res)
    case (Inl err)
    with step Cons.prems have
      "sync_books P settings client r (Suc i) books (s, Suc e)
         (emit (Notice (book_error_notice book)) (emit (LogError err) w1)) = ((s', e'), w')"
      by simp
    from Cons.IH [OF this] show ?thesis by simp
  next
    case (Inr u)
    with step Cons.prems have
      "sync_books P settings client r (Suc i) books (Suc s, e) w1 = ((s', e'), w')"
      by simp
    from Cons.IH [OF this] show ?thesis by simp
  qed
qed

lemma sync_books_append:
  "sync_books P settings client r i (pre @ post) counts w =
     (case sync_books P settings client r i pre counts w of
        (counts1, w1) \<Rightarrow> sync_books P settings client r (i + length pre) post counts1 w1)"
proof (induction pre arbitrary: i counts w)
  case Nil
  show ?case by simp
next
  case (Cons book pre)
  obtain s e where counts: "counts = (s, e)"
    by (cases counts)
  obtain res w1 where step: "syncBookHighlights P settings client (r i) book w = (res, w1)"
    by (cases "syncBookHighlights P settings client (r i) book w")
  show ?case
    using step Cons.IH by (cases res) (simp_all add: counts)
qed

text \<open>
  C8. The loop over the books of a run. Every book is counted once, as a success or as a
  failure. A book whose sync fails, wherever it stands in the list, is logged, reported
  to the user and counted as a failure, and the loop goes on with the books after it,
  from the world the failed sync left; a book whose sync succeeds is counted as a
  success. And when the library has books and the root folder is there, the run ends by
  telling the user the two counts, which add up to the number of books: its last notice
  is \<open>BookRise highlight sync finished.\<close>, then \<open>Synced n books.\<close> with the number of
  the books that succeeded when there is one, then \<open>Failed for m books.\<close> with the number
  of the books that failed when there is one, each number written as the language
  writes it. (A count of zero is not written: the sentence for it is left out.)
\<close>

theorem book_failures_do_not_stop_the_run:
  "(sync_books P settings client r i books (s, e) w = ((s', e'), w') \<longrightarrow>
      s' + e' = s + e + length books \<and> s \<le> s' \<and> e \<le> e')
   \<and> (sync_books P settings client r i pre (s, e) w = ((s1, e1), w1)
        \<and> syncBookHighlights P settings client (r (i + length pre)) b w1 = (Inl err, w2) \<longrightarrow>
      sync_books P settings client r i (pre @ b # post) (s, e) w =
        sync_books P settings client r (Suc (i + length pre)) post (s1, Suc e1)
          (emit (Notice (book_error_notice b)) (emit (LogError err) w2)))
   \<and> (sync_books P settings client r i pre (s, e) w = ((s1, e1), w1)
        \<and> syncBookHighlights P settings client (r (i + length pre)) b w1 = (Inr (), w2) \<longrightarrow>
      sync_books P settings client r i (pre @ b # post) (s, e) w =
        sync_books P settings client r (Suc (i + length pre)) post (Suc s1, e1) w2)
   \<and> (books_result c = Inr (Some books) \<and> books \<noteq> []
        \<and> ensureFolderExists (bookriseSyncFolder settings)
              (emit (Notice (js ''Found '' @ nat_string P (length books)
                             @ js '' books. Fetching highlights...''))
                 (emit (Notice (js ''Starting BookRise highlight sync...'')) w0)) = (Inr (), w3)
        \<and> sync_books P settings (Some c) r 0 books (0, 0) w3 = ((n, m), w4) \<longrightarrow>
      syncAllHighlights P settings (Some c) r w0 =
        emit (Notice (js ''BookRise highlight sync finished.''
                      @ (if 0 < n
                         then js '' Synced '' @ number_to_string P (Finite (of_nat n)) @ js '' books.''
                         else [])
                      @ (if 0 < m
                         then js '' Failed for '' @ number_to_string P (Finite (of_nat m))
                              @ js '' books.''
                         else []))) w4
      \<and> n + m = length books)"
proof (intro conjI impI)
  assume "sync_books P settings client r i books (s, e) w = ((s', e'), w')"
  from sync_books_counts [OF this]
  show "s' + e' = s + e + length books" and "s \<le> s'" and "e \<le> e'"
    by simp_all
next
  assume "sync_books P settings client r i pre (s, e) w = ((s1, e1), w1)
        \<and> syncBookHighlights P settings client (r (i + length pre)) b w1 = (Inl err, w2)"
  then show "sync_books P settings client r i (pre @ b # post) (s, e) w =
        sync_books P settings client r (Suc (i + length pre)) post (s1, Suc e1)
          (emit (Notice (book_error_notice b)) (emit (LogError err) w2))"
    by (simp add: sync_books_append)
next
  assume "sync_books P settings client r i pre (s, e) w = ((s1, e1), w1)
        \<and> syncBookHighlights P settings client (r (i + length pre)) b w1 = (Inr (), w2)"
  then show "sync_books P settings client r i (pre @ b # post) (s, e) w =
        sync_books P settings client r (Suc (i + length pre)) post (Suc s1, e1) w2"
    by (simp add: sync_books_append)
next
  assume run: "books_result c = Inr (Some books) \<and> books \<noteq> []
        \<and> ensureFolderExists (bookriseSyncFolder settings)
              (emit (Notice (js ''Found '' @ nat_string P (length books)
                             @ js '' books. Fetching highlights...''))
                 (emit (Notice (js ''Starting BookRise highlight sync...'')) w0)) = (Inr (), w3)
        \<and> sync_books P settings (Some c) r 0 books (0, 0) w3 = ((n, m), w4)"
  then show "syncAllHighlights P settings (Some c) r w0 =
        emit (Notice (js ''BookRise highlight sync finished.''
                      @ (if 0 < n
                         then js '' Synced '' @ number_to_string P (Finite (of_nat n)) @ js '' books.''
                         else [])
                      @ (if 0 < m
                         then js '' Failed for '' @ number_to_string P (Finite (of_nat m))
                              @ js '' books.''
                         else []))) w4"
    by (simp add: syncAllHighlights_def Let_def summaryNotice_def nat_string_def)
  from run have "sync_books P settings (Some c) r 0 books (0, 0) w3 = ((n, m), w4)"
    by simp
  from sync_books_counts [OF this] show "n + m = length books"
    by simp
qed


text \<open>
  A list of helper calls runs without error from a world where no path it needs as a
  folder holds a file, no path it writes holds a folder, and no path is needed as both.
\<close>

lemma run_plan_succeeds:
  assumes "\<forall>p \<in> set (plan_folders xs). vault w p = None \<or> vault w p = Some TFolder"
    and "\<forall>p \<in> fst ` set (plan_writes xs). vault w p \<noteq> Some TFolder"
    and "set (plan_folders xs) \<inter> fst ` set (plan_writes xs) = {}"
  shows "\<exists>w'. run_plan xs w = (Inr (), w')"
  using assms
proof (induction xs arbitrary: w)
  case Nil
  show ?case by simp
next
  case (Cons x xs)
  show ?case
  proof (cases x)
    case (EnsureFolder p)
    from Cons.prems(1) EnsureFolder have here: "vault w p = None \<or> vault w p = Some TFolder"
      by simp
    then obtain w1 where step: "ensureFolderExists p w = (Inr (), w1)"
      and v1: "vault w1 = vault w \<or> vault w1 = (vault w)(p \<mapsto> TFolder)"
      using ensureFolderExists_succeeds by blast
    have "p \<notin> fst ` set (plan_writes xs)"
      using Cons.prems(3) EnsureFolder by auto
    have a: "\<forall>q \<in> fst ` set (plan_writes xs). vault w1 q \<noteq> Some TFolder"
    proof
      fix q
      assume q: "q \<in> fst ` set (plan_writes xs)"
      with \<open>p \<notin> fst ` set (plan_writes xs)\<close> have "q \<noteq> p"
        by blast
      moreover have "vault w q \<noteq> Some TFolder"
        using Cons.prems(2) q EnsureFolder by auto
      ultimately show "vault w1 q \<noteq> Some TFolder"
        using v1 by (auto split: if_splits)
    qed
    have b: "\<forall>q \<in> set (plan_folders xs). vault w1 q = None \<or> vault w1 q = Some TFolder"
    proof
      fix q
      assume "q \<in> set (plan_folders xs)"
      then have "vault w q = None \<or> vault w q = Some TFolder"
        using Cons.prems(1) EnsureFolder by simp
      then show "vault w1 q = None \<or> vault w1 q = Some TFolder"
        using v1 by (auto split: if_splits)
    qed
    have c: "set (plan_folders xs) \<inter> fst ` set (plan_writes xs) = {}"
      using Cons.prems(3) EnsureFolder by auto
    from Cons.IH [OF b a c] step EnsureFolder show ?thesis
      by simp
  next
    case (WriteFile p c)
    from Cons.prems(2) WriteFile have "vault w p \<noteq> Some TFolder"
      by auto
    then obtain w1 where step: "createOrUpdateFile p c w = (Inr (), w1)"
      and v1: "vault w1 = (vault w)(p \<mapsto> TFile c)"
      using createOrUpdateFile_succeeds by blast
    have "p \<notin> set (plan_folders xs)"
      using Cons.prems(3) WriteFile by auto
    have b: "\<forall>q \<in> set (plan_folders xs). vault w1 q = None \<or> vault w1 q = Some TFolder"
    proof
      fix q
      assume q: "q \<in> set (plan_folders xs)"
      with \<open>p \<notin> set (plan_folders xs)\<close> have "q \<noteq> p"
        by blast
      moreover have "vault w q = None \<or> vault w q = Some TFolder"
        using Cons.prems(1) q WriteFile by simp
      ultimately show "vault w1 q = None \<or> vault w1 q = Some TFolder"
        using v1 by (auto split: if_splits)
    qed
    have a: "\<forall>q \<in> fst ` set (plan_writes xs). vault w1 q \<noteq> Some TFolder"
    proof
      fix q
      assume "q \<in> fst ` set (plan_writes xs)"
      then have "vault w q \<noteq> Some TFolder"
        using Cons.prems(2) WriteFile by auto
      then show "vault w1 q \<noteq> Some TFolder"
        using v1 by (auto split: if_splits)
    qed
    have c: "set (plan_folders xs) \<inter> fst ` set (plan_writes xs) = {}"
      using Cons.prems(3) WriteFile by auto
    from Cons.IH [OF b a c] step WriteFile show ?thesis
      by simp
  qed
qed

text \<open>A run leaves the paths alone that its list does not name.\<close>

lemma run_plan_frame:
  "run_plan xs w = (Inr u, w') \<Longrightarrow> p \<notin> set (plan_folders xs) \<Longrightarrow> p \<notin> fst ` set (plan_writes xs)
     \<Longrightarrow> vault w' p = vault w p"
proof (induction xs arbitrary: w)
  case Nil
  then show ?case by simp
next
  case (Cons x xs)
  from Cons.prems(1) obtain w1 where step: "run_op x w = (Inr (), w1)"
    and rest: "run_plan xs w1 = (Inr u, w')"
    by (rule run_plan_ConsE)
  show ?case
  proof (cases x)
    case (EnsureFolder q)
    with step have "vault w1 = vault w \<or> vault w1 = (vault w)(q \<mapsto> TFolder)"
      by (auto simp: ensureFolderExists_def vault_createFolder_def
               split: option.splits entry.splits if_splits error.splits)
    moreover have "p \<noteq> q"
      using Cons.prems(2) EnsureFolder by simp
    ultimately have "vault w1 p = vault w p"
      by auto
    with Cons.IH [OF rest] Cons.prems EnsureFolder show ?thesis
      by simp
  next
    case (WriteFile q c)
    with step have "vault w1 = (vault w)(q \<mapsto> TFile c)"
      using createOrUpdateFile_ok(1) [of q c w "()" w1] by simp
    moreover have "p \<noteq> q"
      using Cons.prems(3) WriteFile by simp
    ultimately have "vault w1 p = vault w p"
      by simp
    with Cons.IH [OF rest] Cons.prems WriteFile show ?thesis
      by simp
  qed
qed

text \<open>The sync of a book whose highlights cannot be listed: the folder, then the error.\<close>

lemma syncBookHighlights_unlisted:
  assumes "client_listHighlights c (b_id book) = Inl e"
    and "vault w (bookFolderPath settings book) = None
         \<or> vault w (bookFolderPath settings book) = Some TFolder"
  shows "\<exists>w'. syncBookHighlights P settings (Some c) r book w = (Inl e, w')
              \<and> (\<forall>q. q \<noteq> bookFolderPath settings book \<longrightarrow> vault w' q = vault w q)
              \<and> vault w' (bookFolderPath settings book) = Some TFolder"
proof -
  obtain w1 where step: "ensureFolderExists (bookFolderPath settings book) w = (Inr (), w1)"
    and v1: "vault w1 = vault w \<or> vault w1 = (vault w)(bookFolderPath settings book \<mapsto> TFolder)"
    and f1: "vault w1 (bookFolderPath settings book) = Some TFolder"
    using ensureFolderExists_succeeds [OF assms(2)] by blast
  have "syncBookHighlights P settings (Some c) r book w = (Inl e, w1)"
    using assms(1) step by (simp add: syncBookHighlights_def)
  moreover have "\<forall>q. q \<noteq> bookFolderPath settings book \<longrightarrow> vault w1 q = vault w q"
    using v1 by auto
  ultimately show ?thesis
    using f1 by blast
qed


subsection \<open>Concrete runs\<close>

lemmas sample_defs = one_file_settings_def note_per_highlight_settings_def sample_book_def
  nameless_book_def other_book_def hl_first_def hl_second_def hl_twin_def highlight_def

lemmas string_defs = js_def DQ_def NL_def is_space_def is_forbidden_def trim_def
  sanitizeFileName_def replace_each_def trimmed_words_def cons_first_def present_def str_def

lemma sample_paths:
  "bookFolderPath one_file_settings sample_book = js ''BookRise/Dune''"
  "mainBookFilePath one_file_settings sample_book = js ''BookRise/Dune/Dune.md''"
  "bookFolderPath one_file_settings nameless_book = js ''BookRise/Lost''"
  "bookFolderPath note_per_highlight_settings sample_book = js ''BookRise/Dune''"
  "mainBookFilePath note_per_highlight_settings sample_book = js ''BookRise/Dune/Dune.md''"
  "highlightsFolder note_per_highlight_settings sample_book = js ''BookRise/Dune/_Highlights''"
  "noteFilePath note_per_highlight_settings sample_book hl_first =
     js ''BookRise/Dune/_Highlights/Fear is the mind-killer (aaaaaaaa).md''"
  "noteFilePath note_per_highlight_settings sample_book hl_twin =
     js ''BookRise/Dune/_Highlights/Fear is the mind-killer (aaaaaaaa).md''"
  by (simp_all add: mainBookFilePath_def noteFilePath_def highlightsFolder_def
        bookFolderPath_def noteFileName_def noteTitlePrefix_def sample_defs string_defs)

lemma sample_paths_differ:
  "js ''BookRise/Dune'' \<noteq> js ''BookRise/Dune/Dune.md''"
  "js ''BookRise/Lost'' \<noteq> js ''BookRise/Dune''"
  "js ''BookRise/Lost'' \<noteq> js ''BookRise/Dune/Dune.md''"
  "js ''BookRise'' \<noteq> js ''BookRise/Dune''"
  "js ''BookRise'' \<noteq> js ''BookRise/Dune/Dune.md''"
  "js ''BookRise'' \<noteq> js ''BookRise/Lost''"
  "js ''BookRise/Dune'' \<noteq> js ''BookRise/Dune/_Highlights/Fear is the mind-killer (aaaaaaaa).md''"
  "js ''BookRise/Dune/_Highlights'' \<noteq> js ''BookRise/Dune/_Highlights/Fear is the mind-killer (aaaaaaaa).md''"
  "js ''BookRise/Dune/_Highlights'' \<noteq> js ''BookRise/Dune/Dune.md''"
  "js ''BookRise/Dune/_Highlights/Fear is the mind-killer (aaaaaaaa).md'' \<noteq> js ''BookRise/Dune/Dune.md''"
  by (simp_all add: js_def)


lemma empty_vault [simp]: "vault empty_world p = None"
  by (simp add: empty_world_def)

lemma sample_listing:
  "client_listHighlights (sample_remote bs hls) (b_id sample_book) = Inr (Some hls)"
  "client_listHighlights (sample_remote bs hls) (b_id nameless_book) = Inl BookIdRequired"
  by (simp_all add: client_listHighlights_def sample_remote_def sample_book_def
                    nameless_book_def js_def)

text \<open>The sample book with no highlights, one file for a book: its sync writes its note.\<close>

lemma dune_syncs:
  assumes "vault w (js ''BookRise/Dune'') = None \<or> vault w (js ''BookRise/Dune'') = Some TFolder"
    and "vault w (js ''BookRise/Dune/Dune.md'') \<noteq> Some TFolder"
  shows "\<exists>w1. syncBookHighlights sample_platform one_file_settings (Some (sample_remote bs hls)) r
                sample_book w = (Inr (), w1)
              \<and> (\<forall>q. q \<noteq> js ''BookRise/Dune'' \<and> q \<noteq> js ''BookRise/Dune/Dune.md''
                     \<longrightarrow> vault w1 q = vault w q)"
proof -
  let ?plan = "book_plan sample_platform one_file_settings r sample_book (Some hls)"
  have mode: "\<not> createNotePerHighlight one_file_settings"
    by (simp add: one_file_settings_def)
  have "\<exists>content. ?plan = [EnsureFolder (js ''BookRise/Dune''),
                               WriteFile (js ''BookRise/Dune/Dune.md'') content]"
    by (cases "hls = []") (simp_all add: book_plan_def sample_paths mode)
  then obtain content where plan: "?plan = [EnsureFolder (js ''BookRise/Dune''),
                                        WriteFile (js ''BookRise/Dune/Dune.md'') content]"
    by blast
  have "\<exists>w1. run_plan ?plan w = (Inr (), w1)"
    using assms sample_paths_differ by (intro run_plan_succeeds) (simp_all add: plan)
  then obtain w1 where ran: "run_plan ?plan w = (Inr (), w1)"
    by blast
  have "vault w1 q = vault w q"
    if "q \<noteq> js ''BookRise/Dune'' \<and> q \<noteq> js ''BookRise/Dune/Dune.md''" for q
    using run_plan_frame [OF ran, of q] that by (simp add: plan)
  then show ?thesis
    using ran syncBookHighlights_plan [OF sample_listing(1)] by auto
qed

lemma lost_fails:
  assumes "vault w (js ''BookRise/Lost'') = None \<or> vault w (js ''BookRise/Lost'') = Some TFolder"
  shows "\<exists>w2. syncBookHighlights sample_platform one_file_settings (Some (sample_remote bs hls)) r
                nameless_book w = (Inl BookIdRequired, w2)"
proof -
  have "vault w (bookFolderPath one_file_settings nameless_book) = None
        \<or> vault w (bookFolderPath one_file_settings nameless_book) = Some TFolder"
    using assms by (simp add: sample_paths)
  from syncBookHighlights_unlisted [OF sample_listing(2) this]
  show ?thesis
    by blast
qed

theorem syncBookHighlights_twice_witness:
  "\<exists>w1 w2 ws.
     syncBookHighlights sample_platform one_file_settings
       (Some (sample_remote [sample_book] [hl_first, hl_second])) no_random sample_book
       empty_world = (Inr (), w1)
     \<and> syncBookHighlights sample_platform one_file_settings
         (Some (sample_remote [sample_book] [hl_first, hl_second])) other_random sample_book
         w1 = (Inr (), w2)
     \<and> vault w2 = vault w1 \<and> wrote empty_world w1 ws \<and> wrote w1 w2 ws"
proof -
  let ?c = "sample_remote [sample_book] [hl_first, hl_second]"
  have ids: "\<forall>h \<in> set [hl_first, hl_second]. h_id h \<noteq> []"
    by (simp add: hl_first_def hl_second_def highlight_def js_def)
  obtain w1 where ran: "syncBookHighlights sample_platform one_file_settings (Some ?c) no_random
                          sample_book empty_world = (Inr (), w1)"
    using dune_syncs [of empty_world "[sample_book]" "[hl_first, hl_second]" no_random] by auto
  from syncBookHighlights_twice [OF sample_listing(1) ids ran, of other_random] ran
  show ?thesis
    by blast
qed

text \<open>
  C2, at the input that breaks it. Two highlights of one book with the same text and ids
  that start with the same eight code units, synced with a note for each highlight: the
  sync runs without error, both notes go to one path, whose file ends up holding the
  second highlight, and the first highlight has no note.
\<close>

theorem twin_highlights_share_one_note:
  "\<exists>w'. syncBookHighlights sample_platform note_per_highlight_settings
          (Some (sample_remote [sample_book] [hl_first, hl_twin])) no_random sample_book
          empty_world = (Inr (), w')
     \<and> map fst (writes_of (trace w')) =
         [js ''BookRise/Dune/_Highlights/Fear is the mind-killer (aaaaaaaa).md'',
          js ''BookRise/Dune/_Highlights/Fear is the mind-killer (aaaaaaaa).md'',
          js ''BookRise/Dune/Dune.md'']
     \<and> vault w' (js ''BookRise/Dune/_Highlights/Fear is the mind-killer (aaaaaaaa).md'') =
         Some (TFile (noteContent sample_platform sample_book hl_twin))
     \<and> h_id hl_first \<noteq> h_id hl_twin"
proof -
  let ?c = "sample_remote [sample_book] [hl_first, hl_twin]"
  let ?S = note_per_highlight_settings
  let ?n = "js ''BookRise/Dune/_Highlights/Fear is the mind-killer (aaaaaaaa).md''"
  let ?plan = "book_plan sample_platform ?S no_random sample_book (Some [hl_first, hl_twin])"
  have mode: "createNotePerHighlight ?S"
    by (simp add: note_per_highlight_settings_def)
  have "\<exists>c1 c2 cm.
    ?plan = [EnsureFolder (js ''BookRise/Dune''), EnsureFolder (js ''BookRise/Dune/_Highlights''),
             WriteFile ?n c1, WriteFile ?n c2, WriteFile (js ''BookRise/Dune/Dune.md'') cm]"
    by (simp add: book_plan_def sample_paths mode)
  then obtain c1 c2 cm where plan:
    "?plan = [EnsureFolder (js ''BookRise/Dune''), EnsureFolder (js ''BookRise/Dune/_Highlights''),
              WriteFile ?n c1, WriteFile ?n c2, WriteFile (js ''BookRise/Dune/Dune.md'') cm]"
    by blast
  have "\<exists>w'. run_plan ?plan empty_world = (Inr (), w')"
    using sample_paths_differ by (intro run_plan_succeeds) (simp_all add: plan)
  then obtain w' where ran: "syncBookHighlights sample_platform ?S (Some ?c) no_random sample_book
                               empty_world = (Inr (), w')"
    using syncBookHighlights_plan [OF sample_listing(1)] by auto
  note two = two_highlights [OF sample_listing(1) ran]
  from two mode have "wrote empty_world w'
      [(noteFilePath ?S sample_book hl_first, noteContent sample_platform sample_book hl_first),
       (noteFilePath ?S sample_book hl_twin, noteContent sample_platform sample_book hl_twin),
       (mainBookFilePath ?S sample_book,
        mainBookHeader sample_platform sample_book @ index_intro
        @ highlightLink hl_first @ [NL] @ highlightLink hl_twin @ [NL])]"
    by blast
  then have "map fst (writes_of (trace w')) =
      [noteFilePath ?S sample_book hl_first, noteFilePath ?S sample_book hl_twin,
       mainBookFilePath ?S sample_book]"
    by (auto simp: wrote_def empty_world_def)
  then have paths: "map fst (writes_of (trace w')) = [?n, ?n, js ''BookRise/Dune/Dune.md'']"
    by (simp only: sample_paths)
  have "noteFilePath ?S sample_book hl_first = noteFilePath ?S sample_book hl_twin
        \<and> noteFilePath ?S sample_book hl_twin \<noteq> mainBookFilePath ?S sample_book"
    using sample_paths_differ(10) by (simp only: sample_paths simp_thms)
  with two mode have "vault w' (noteFilePath ?S sample_book hl_first) =
      Some (TFile (noteContent sample_platform sample_book hl_twin))"
    by blast
  then have "vault w' ?n = Some (TFile (noteContent sample_platform sample_book hl_twin))"
    by (simp only: sample_paths)
  note content = this
  have ids: "h_id hl_first \<noteq> h_id hl_twin"
    by (simp add: hl_first_def hl_twin_def highlight_def js_def)
  show ?thesis
    by (intro exI [of _ w'] conjI) (rule ran, rule paths, rule content, rule ids)
qed


theorem book_failures_do_not_stop_the_run_witness:
  "\<exists>w1 w2 w3 w4.
     syncBookHighlights sample_platform one_file_settings
       (Some (sample_remote [sample_book, nameless_book] [])) no_random sample_book empty_world
       = (Inr (), w1)
     \<and> syncBookHighlights sample_platform one_file_settings
         (Some (sample_remote [sample_book, nameless_book] [])) no_random nameless_book w1
       = (Inl BookIdRequired, w2)
     \<and> sync_books sample_platform one_file_settings
         (Some (sample_remote [sample_book, nameless_book] [])) (\<lambda>i. no_random) 0
         [sample_book, nameless_book, other_book] (0, 0) empty_world
       = sync_books sample_platform one_file_settings
           (Some (sample_remote [sample_book, nameless_book] [])) (\<lambda>i. no_random) 2
           [other_book] (1, 1)
           (emit (Notice (book_error_notice nameless_book)) (emit (LogError BookIdRequired) w2))
     \<and> sync_books sample_platform one_file_settings
         (Some (sample_remote [sample_book, nameless_book] [])) (\<lambda>i. no_random) 0
         [sample_book, nameless_book] (0, 0) w3
       = ((1, 1), w4)
     \<and> syncAllHighlights sample_platform one_file_settings
         (Some (sample_remote [sample_book, nameless_book] [])) (\<lambda>i. no_random) empty_world
       = emit (Notice (js ''BookRise highlight sync finished. Synced 1 books. Failed for 1 books.''))
           w4
     \<and> (1::nat) + 1 = length [sample_book, nameless_book]"
proof -
  let ?c = "sample_remote [sample_book, nameless_book] []"
  let ?S = one_file_settings
  let ?r = "\<lambda>i::nat. no_random"
  let ?bad = "\<lambda>w. emit (Notice (book_error_notice nameless_book)) (emit (LogError BookIdRequired) w)"
  \<comment> \<open>the loop from the empty vault\<close>
  obtain w1 where s1: "syncBookHighlights sample_platform ?S (Some ?c) no_random sample_book
                         empty_world = (Inr (), w1)"
    and f1: "\<forall>q. q \<noteq> js ''BookRise/Dune'' \<and> q \<noteq> js ''BookRise/Dune/Dune.md''
                 \<longrightarrow> vault w1 q = vault empty_world q"
    using dune_syncs [of empty_world "[sample_book, nameless_book]" "[]" no_random] by auto
  have "vault w1 (js ''BookRise/Lost'') = None"
    using f1 sample_paths_differ by simp
  then obtain w2 where s2: "syncBookHighlights sample_platform ?S (Some ?c) no_random
                              nameless_book w1 = (Inl BookIdRequired, w2)"
    using lost_fails [of w1 "[sample_book, nameless_book]" "[]" no_random] by auto
  have pre: "sync_books sample_platform ?S (Some ?c) ?r 0 [sample_book] (0, 0) empty_world
               = ((1, 0), w1)"
    using s1 by simp
  note main = book_failures_do_not_stop_the_run
  have part2: "sync_books sample_platform ?S (Some ?c) ?r 0
                 ([sample_book] @ nameless_book # [other_book]) (0, 0) empty_world
               = sync_books sample_platform ?S (Some ?c) ?r (Suc (0 + length [sample_book]))
                   [other_book] (1, Suc 0) (?bad w2)"
    using main [where P = sample_platform and settings = ?S and client = "Some ?c" and r = ?r
                 and i = 0 and pre = "[sample_book]" and s = 0 and e = 0 and w = empty_world
                 and ?s1.0 = 1 and ?e1.0 = 0 and ?w1.0 = w1 and b = nameless_book
                 and err = BookIdRequired and ?w2.0 = w2 and post = "[other_book]"]
      pre s2
    by simp
  \<comment> \<open>the whole run: the root folder first\<close>
  let ?w0 = "emit (Notice (js ''Found '' @ nat_string sample_platform (length [sample_book, nameless_book])
                           @ js '' books. Fetching highlights...''))
               (emit (Notice (js ''Starting BookRise highlight sync...'')) empty_world)"
  have "vault ?w0 (js ''BookRise'') = None"
    by simp
  then obtain w3 where root: "ensureFolderExists (js ''BookRise'') ?w0 = (Inr (), w3)"
    and v3: "vault w3 = vault ?w0 \<or> vault w3 = (vault ?w0)(js ''BookRise'' \<mapsto> TFolder)"
    using ensureFolderExists_succeeds [of ?w0 "js ''BookRise''"] by auto
  have v3': "vault w3 q = None" if "q \<noteq> js ''BookRise''" for q
    using v3 that by auto
  have "vault w3 (js ''BookRise/Dune'') = None" and "vault w3 (js ''BookRise/Dune/Dune.md'') = None"
    using v3' sample_paths_differ by simp_all
  then obtain w5 where s5: "syncBookHighlights sample_platform ?S (Some ?c) no_random sample_book w3
                              = (Inr (), w5)"
    and f5: "\<forall>q. q \<noteq> js ''BookRise/Dune'' \<and> q \<noteq> js ''BookRise/Dune/Dune.md''
                 \<longrightarrow> vault w5 q = vault w3 q"
    using dune_syncs [of w3 "[sample_book, nameless_book]" "[]" no_random] by auto
  have "vault w5 (js ''BookRise/Lost'') = None"
    using f5 v3' sample_paths_differ by simp
  then obtain w6 where s6: "syncBookHighlights sample_platform ?S (Some ?c) no_random
                              nameless_book w5 = (Inl BookIdRequired, w6)"
    using lost_fails [of w5 "[sample_book, nameless_book]" "[]" no_random] by auto
  have loop: "sync_books sample_platform ?S (Some ?c) ?r 0 [sample_book, nameless_book] (0, 0) w3
                = ((1, 1), ?bad w6)"
    using s5 s6 by simp
  let ?report = "js ''BookRise highlight sync finished.''
      @ (if 0 < (1::nat)
         then js '' Synced '' @ number_to_string sample_platform (Finite (of_nat (1::nat)))
              @ js '' books.''
         else [])
      @ (if 0 < (1::nat)
         then js '' Failed for '' @ number_to_string sample_platform (Finite (of_nat (1::nat)))
              @ js '' books.''
         else [])"
  have report: "?report = js ''BookRise highlight sync finished. Synced 1 books. Failed for 1 books.''"
    by (simp add: sample_platform_def sample_number_to_string_def js_def)
  have "syncAllHighlights sample_platform ?S (Some ?c) ?r empty_world
                 = emit (Notice ?report) (?bad w6)
               \<and> (1::nat) + 1 = length [sample_book, nameless_book]"
    using main [where P = sample_platform and settings = ?S and c = ?c and r = ?r
                 and books = "[sample_book, nameless_book]" and ?w0.0 = empty_world
                 and ?w3.0 = w3 and n = 1 and m = 1 and ?w4.0 = "?bad w6"]
      root loop
    by (simp add: sample_remote_def one_file_settings_def)
  then have part4: "syncAllHighlights sample_platform ?S (Some ?c) ?r empty_world
                 = emit (Notice (js ''BookRise highlight sync finished. Synced 1 books. Failed for 1 books.''))
                     (?bad w6)
               \<and> (1::nat) + 1 = length [sample_book, nameless_book]"
    unfolding report .
  have part2': "sync_books sample_platform ?S (Some ?c) ?r 0
                  [sample_book, nameless_book, other_book] (0, 0) empty_world
                = sync_books sample_platform ?S (Some ?c) ?r 2 [other_book] (1, 1) (?bad w2)"
    using part2 by (simp del: sync_books.simps add: numeral_2_eq_2)
  show ?thesis
    apply (rule exI [of _ w1])
    apply (rule exI [of _ w2])
    apply (rule exI [of _ w3])
    apply (rule exI [of _ "?bad w6"])
    apply (intro conjI)
         apply (rule s1)
        apply (rule s2)
       apply (rule part2')
      apply (rule loop)
     apply (rule part4 [THEN conjunct1])
    apply (rule part4 [THEN conjunct2])
    done
qed

end
